theory Spec2Isabelle
  imports Complex_Main
begin

section \<open>The phasor converter: numbers\<close>

text \<open>
  The script computes with Python floats. In the first reading of the code they are
  embedded as HOL reals: every value is finite and every operation is exact. This reading
  carries the formulas of the helpers, the formatting and the flow of one run. Where the
  rounding to 53 bits, the sign of a zero or a value that is not finite decides what the
  script does, the helpers concerned are embedded a second time, on doubles, in the
  sections "The double-precision reading" and "Text fields that are not finite numbers".
\<close>

type_synonym pyfloat = real

text \<open>\<^verbatim>\<open>math.radians\<close> and \<^verbatim>\<open>math.degrees\<close>.\<close>

definition radians :: "pyfloat \<Rightarrow> pyfloat" where
  "radians a = a * (pi / 180)"

definition degrees :: "pyfloat \<Rightarrow> pyfloat" where
  "degrees a = a * (180 / pi)"

text \<open>\<^verbatim>\<open>math.hypot\<close>: the Euclidean norm of the pair.\<close>

definition hypot :: "pyfloat \<Rightarrow> pyfloat \<Rightarrow> pyfloat" where
  "hypot x y = sqrt (x\<^sup>2 + y\<^sup>2)"

text \<open>
  \<^verbatim>\<open>math.atan2(y, x)\<close>: the angle of the point \<open>(x, y)\<close>, by quadrant; \<open>atan2(0, 0)\<close>
  is \<open>0\<close>. The reals have one zero; what the sign of a zero changes is in
  \<open>atan2_dbl\<close> below.
\<close>

definition atan2 :: "pyfloat \<Rightarrow> pyfloat \<Rightarrow> pyfloat" where
  "atan2 y x =
     (if 0 < x then arctan (y / x)
      else if x < 0 then (if 0 \<le> y then arctan (y / x) + pi else arctan (y / x) - pi)
      else if 0 < y then pi / 2
      else if y < 0 then - (pi / 2)
      else 0)"

text \<open>
  Python's \<^verbatim>\<open>a % b\<close> on floats takes the sign of the divisor: \<open>a - b * floor (a / b)\<close>
  in exact arithmetic; the rounded operation is \<open>float_rem\<close> below.
  The script only divides by the constants \<open>360\<close> and \<open>2 * pi\<close>, so the
  ZeroDivisionError of \<open>b = 0\<close> has no branch here.
\<close>

definition pymod :: "pyfloat \<Rightarrow> pyfloat \<Rightarrow> pyfloat" where
  "pymod a b = a - b * of_int \<lfloor>a / b\<rfloor>"

section \<open>Helpers of the script\<close>

definition to_rect :: "pyfloat \<Rightarrow> pyfloat \<Rightarrow> bool \<Rightarrow> pyfloat \<times> pyfloat" where
  "to_rect mag ang deg =
     (let theta = (if deg then radians ang else ang);
          x = mag * cos theta;
          y = mag * sin theta
      in (x, y))"

definition to_polar :: "pyfloat \<Rightarrow> pyfloat \<Rightarrow> bool \<Rightarrow> pyfloat \<times> pyfloat" where
  "to_polar x y deg =
     (let mag = hypot x y;
          ang = atan2 y x
      in if deg then (mag, degrees ang) else (mag, ang))"

definition wrap_angle :: "pyfloat \<Rightarrow> bool \<Rightarrow> pyfloat" where
  "wrap_angle ang deg =
     (if deg then pymod (ang + 180) 360 - 180
      else pymod (ang + pi) (2 * pi) - pi)"

section \<open>Formatting\<close>

text \<open>
  \<^verbatim>\<open>format(v, ".{p}f")\<close>: fixed-point notation with \<open>p\<close> digits after the point. The
  decimal is the one nearest to the exact value, ties going to the even last digit; a
  negative value keeps its sign even when every printed digit is \<open>0\<close>, and with
  \<open>p = 0\<close> no point is printed.
\<close>

definition round_half_even :: "real \<Rightarrow> int" where
  "round_half_even r =
     (let f = \<lfloor>r\<rfloor>; d = r - of_int f
      in if d < 1 / 2 then f else if 1 / 2 < d then f + 1 else if even f then f else f + 1)"

definition digit_char :: "nat \<Rightarrow> char" where
  "digit_char d = ''0123456789'' ! d"

fun str_nat :: "nat \<Rightarrow> string" where
  "str_nat n = (if n < 10 then [digit_char n] else str_nat (n div 10) @ [digit_char (n mod 10)])"

definition zfill :: "nat \<Rightarrow> string \<Rightarrow> string" where
  "zfill w s = replicate (w - length s) (CHR ''0'') @ s"

definition format_f :: "pyfloat \<Rightarrow> nat \<Rightarrow> string" where
  "format_f v p =
     (let n = nat (round_half_even (\<bar>v\<bar> * 10 ^ p));
          ip = n div 10 ^ p;
          fp = n mod 10 ^ p
      in (if v < 0 then ''-'' else []) @ str_nat ip
         @ (if p = 0 then [] else ''.'' @ zfill p (str_nat fp)))"

text \<open>
  \<^verbatim>\<open>round(v, n)\<close> with \<open>n\<close> digits: the nearest multiple of \<open>10^-n\<close>, ties to even.
\<close>

definition py_round :: "pyfloat \<Rightarrow> nat \<Rightarrow> pyfloat" where
  "py_round v n = of_int (round_half_even (v * 10 ^ n)) / 10 ^ n"

text \<open>The backslash of the raw LaTeX strings.\<close>

definition backslash :: char where
  "backslash = CHR 0x5C"

definition complex_latex :: "pyfloat \<Rightarrow> pyfloat \<Rightarrow> nat \<Rightarrow> string" where
  "complex_latex x y p =
     (let sign = (if y \<ge> 0 then ''+'' else ''-'')
      in backslash # ''displaystyle '' @ format_f x p @ backslash # '' '' @ sign
         @ backslash # '' j'' @ format_f \<bar>y\<bar> p)"

definition polar_latex :: "pyfloat \<Rightarrow> pyfloat \<Rightarrow> nat \<Rightarrow> bool \<Rightarrow> string \<times> string" where
  "polar_latex mag ang p deg =
     (let angle_tex = (if deg then format_f ang p @ ''^'' @ backslash # ''circ''
                       else format_f ang p);
          rect_arrow = backslash # ''displaystyle '' @ format_f mag p @ backslash # '',''
                       @ backslash # ''angle'' @ backslash # '','' @ angle_tex;
          expo = backslash # ''displaystyle '' @ format_f mag p @ backslash # '',e^{j''
                 @ backslash # '','' @ angle_tex @ ''}''
      in (rect_arrow, expo))"

section \<open>The script\<close>

text \<open>
  The sidebar and the two text fields are the input of one run of the script. The two
  text fields are the magnitude and the angle in the mode "Polar to Rectangular", and
  the real and the imaginary part otherwise.
\<close>

datatype conv_mode = PolarToRectangular | RectangularToPolar

datatype unit_choice = Degrees | Radians

record inputs =
  mode :: conv_mode
  angle_unit :: unit_choice
  precision :: nat
  show_plot :: bool
  wrap :: bool
  text1 :: string
  text2 :: string

text \<open>What one run puts on the page.\<close>

record plot =
  endpoint :: "pyfloat \<times> pyfloat"
  xlim :: "pyfloat \<times> pyfloat"
  ylim :: "pyfloat \<times> pyfloat"
  label_tex :: string

record page =
  warned :: bool
  x_val :: pyfloat
  y_val :: pyfloat
  mag_val :: pyfloat
  ang_val :: pyfloat
  rect_tex :: string
  phasor_arrow :: string
  phasor_expo :: string
  num_real :: pyfloat
  num_imag :: pyfloat
  num_magnitude :: pyfloat
  num_angle :: pyfloat
  phasor_plot :: "plot option"

text \<open>
  The built-in \<^verbatim>\<open>float\<close> is a parameter \<open>pf\<close> of the script: \<open>pf s = None\<close> when
  \<^verbatim>\<open>float(s)\<close> raises ValueError, \<open>pf s = Some v\<close> when it returns the finite value
  \<open>v\<close>. Each call sits in a \<^verbatim>\<open>try\<close> whose handler stores \<open>0.0\<close>; the warning of the
  magnitude field is inside the \<^verbatim>\<open>try\<close>, after the conversion. In this exact reading
  no step of a run raises; the runs that end with an exception, and the texts that
  \<^verbatim>\<open>float\<close> turns into an infinite value or a not-a-number, are in \<open>script_x\<close> below.
  A product of a zero and a negative number is \<open>-0.0\<close> in the script and prints with
  a minus sign; here it is the one zero of the reals.
\<close>

definition parse_magnitude :: "(string \<Rightarrow> pyfloat option) \<Rightarrow> string \<Rightarrow> pyfloat \<times> bool" where
  "parse_magnitude pf s = (case pf s of Some m \<Rightarrow> (m, m \<le> 0) | None \<Rightarrow> (0, False))"

definition parse_field :: "(string \<Rightarrow> pyfloat option) \<Rightarrow> string \<Rightarrow> pyfloat" where
  "parse_field pf s = (case pf s of Some v \<Rightarrow> v | None \<Rightarrow> 0)"

text \<open>\<^verbatim>\<open>abs(z)\<close> and \<^verbatim>\<open>np.angle(z)\<close> of the complex number \<open>z\<close>.\<close>

definition abs_complex :: "complex \<Rightarrow> pyfloat" where
  "abs_complex z = hypot (Re z) (Im z)"

definition np_angle :: "complex \<Rightarrow> pyfloat" where
  "np_angle z = atan2 (Im z) (Re z)"

definition plot_of :: "complex \<Rightarrow> bool \<Rightarrow> bool \<Rightarrow> nat \<Rightarrow> plot" where
  "plot_of z deg wr p =
     (let mag_plot = abs_complex z;
          ang_plot = (if deg then degrees (np_angle z) else np_angle z);
          ang_disp = (if wr then wrap_angle ang_plot deg else ang_plot);
          max_abs = max 1 (max \<bar>Re z\<bar> \<bar>Im z\<bar>);
          angle_unit_tex = (if deg then ''^'' @ backslash # ''circ'' else [])
      in \<lparr>endpoint = (Re z, Im z),
          xlim = (- 1.2 * max_abs, 1.2 * max_abs),
          ylim = (- 1.2 * max_abs, 1.2 * max_abs),
          label_tex = ''$|z|='' @ format_f mag_plot p @ '','' @ backslash # '' ''
                      @ backslash # ''theta='' @ format_f ang_disp p @ angle_unit_tex @ ''$''\<rparr>)"

definition script :: "(string \<Rightarrow> pyfloat option) \<Rightarrow> inputs \<Rightarrow> page" where
  "script pf i =
     (let deg = (angle_unit i = Degrees);
          p = precision i;
          (w, x, y, mag, ang, arrow, expo) =
            (if mode i = PolarToRectangular then
               (let (mag, w) = parse_magnitude pf (text1 i);
                    ang = parse_field pf (text2 i);
                    (x, y) = to_rect mag ang deg;
                    disp_ang = (if wrap i then wrap_angle ang deg else ang);
                    (arrow, expo) = polar_latex mag disp_ang p deg
                in (w, x, y, mag, ang, arrow, expo))
             else
               (let x = parse_field pf (text1 i);
                    y = parse_field pf (text2 i);
                    (mag, ang) = to_polar x y deg;
                    ang = (if wrap i then wrap_angle ang deg else ang);
                    (arrow, expo) = polar_latex mag ang p deg
                in (False, x, y, mag, ang, arrow, expo)));
          z = Complex x y
      in \<lparr>warned = w, x_val = x, y_val = y, mag_val = mag, ang_val = ang,
          rect_tex = complex_latex x y p,
          phasor_arrow = arrow,
          phasor_expo = expo,
          num_real = py_round (Re z) (p + 2),
          num_imag = py_round (Im z) (p + 2),
          num_magnitude = py_round (abs_complex z) (p + 2),
          num_angle = py_round (if deg then degrees (np_angle z) else np_angle z) (p + 2),
          phasor_plot = (if show_plot i then Some (plot_of z deg (wrap i) p) else None)\<rparr>)"

text \<open>
  A reader of plain decimal literals (sign, digits, point, digits), to run the script on
  concrete texts. Where it succeeds, \<^verbatim>\<open>float\<close> returns the same number up to rounding,
  and a text such as \<open>abc\<close> makes both fail; it does not read exponents, blanks,
  \<open>inf\<close> or \<open>nan\<close>, which \<^verbatim>\<open>float\<close> accepts.
\<close>

definition digit_of :: "char \<Rightarrow> nat option" where
  "digit_of = map_of [(CHR ''0'', 0), (CHR ''1'', 1), (CHR ''2'', 2), (CHR ''3'', 3),
                      (CHR ''4'', 4), (CHR ''5'', 5), (CHR ''6'', 6), (CHR ''7'', 7),
                      (CHR ''8'', 8), (CHR ''9'', 9)]"

fun nat_of_digits :: "string \<Rightarrow> nat \<Rightarrow> nat option" where
  "nat_of_digits [] acc = Some acc"
| "nat_of_digits (c # cs) acc =
     (case digit_of c of None \<Rightarrow> None | Some d \<Rightarrow> nat_of_digits cs (10 * acc + d))"

definition decimal_unsigned :: "string \<Rightarrow> pyfloat option" where
  "decimal_unsigned s =
     (let ip = takeWhile (\<lambda>c. c \<noteq> CHR ''.'') s;
          fp = drop 1 (dropWhile (\<lambda>c. c \<noteq> CHR ''.'') s)
      in if ip = [] \<and> fp = [] then None
         else (case (nat_of_digits ip 0, nat_of_digits fp 0) of
                 (Some a, Some b) \<Rightarrow> Some (real a + real b / 10 ^ length fp)
               | _ \<Rightarrow> None))"

definition decimal :: "string \<Rightarrow> pyfloat option" where
  "decimal s =
     (case s of
        [] \<Rightarrow> None
      | c # r \<Rightarrow>
          if c = CHR ''-'' then map_option uminus (decimal_unsigned r)
          else if c = CHR ''+'' then decimal_unsigned r
          else decimal_unsigned s)"

text \<open>
  The page as it first loads (degrees, three places, plot and wrapping on, angle text
  \<open>30.0\<close>), with the magnitude text replaced by \<open>abc\<close>.
\<close>

definition scenario_D :: inputs where
  "scenario_D = \<lparr>mode = PolarToRectangular, angle_unit = Degrees, precision = 3,
                  show_plot = True, wrap = True, text1 = ''abc'', text2 = ''30.0''\<rparr>"

text \<open>
  Two more pages: real part \<open>-1\<close> with a tiny negative imaginary part, and magnitude
  \<open>5\<close> at \<open>390\<close> degrees with wrapping off.
\<close>

definition summary_boundary :: inputs where
  "summary_boundary = \<lparr>mode = RectangularToPolar, angle_unit = Degrees, precision = 3,
                        show_plot = True, wrap = False,
                        text1 = ''-1'', text2 = ''-0.000000001''\<rparr>"

definition scenario_390 :: inputs where
  "scenario_390 = \<lparr>mode = PolarToRectangular, angle_unit = Degrees, precision = 3,
                    show_plot = True, wrap = False, text1 = ''5.0'', text2 = ''390''\<rparr>"

section \<open>The double-precision reading\<close>

text \<open>
  At the ends of the range of an angle the rounding of the float operations and the sign
  of a zero decide the result, so the helpers that produce or wrap an angle are embedded
  once more, on doubles. A finite double other than \<open>-0.0\<close> is the real number it
  denotes. \<open>fl\<close> rounds a real to the nearest double, ties going to the even
  significand: 53 significant bits for the exponents from \<open>-1022\<close> on, and the fixed
  spacing \<open>2^-1074\<close> below. Values beyond the largest double are not cut off here;
  overflow is a test of its own, \<open>dbl_overflows\<close>, in the next section.
\<close>

definition binade :: "real \<Rightarrow> int" where
  "binade v = \<lfloor>log 2 \<bar>v\<bar>\<rfloor>"

definition quantum :: "real \<Rightarrow> real" where
  "quantum v = 2 powr (of_int (max (binade v) (- 1022)) - 52)"

definition fl :: "real \<Rightarrow> real" where
  "fl v = (if v = 0 then 0 else of_int (round_half_even (v / quantum v)) * quantum v)"

text \<open>
  C's \<^verbatim>\<open>fmod\<close> is exact and its result has the sign of the dividend. Python's
  \<^verbatim>\<open>a % b\<close> on floats calls \<^verbatim>\<open>fmod\<close> and, when the remainder is not zero and its
  sign differs from the sign of the divisor, adds the divisor to it; this sum is a float
  addition and is rounded. The divisors of the script are the constants \<open>360\<close> and
  \<open>2 * math.pi\<close>, so the ZeroDivisionError of \<open>b = 0\<close> has no branch.
\<close>

definition trunc_int :: "real \<Rightarrow> int" where
  "trunc_int r = (if 0 \<le> r then \<lfloor>r\<rfloor> else \<lceil>r\<rceil>)"

definition fmod :: "real \<Rightarrow> real \<Rightarrow> real" where
  "fmod a b = a - b * of_int (trunc_int (a / b))"

definition float_rem :: "real \<Rightarrow> real \<Rightarrow> real" where
  "float_rem a b =
     (let m = fmod a b
      in if m \<noteq> 0 \<and> (b < 0) \<noteq> (m < 0) then fl (m + b) else m)"

text \<open>
  \<^verbatim>\<open>math.pi\<close> is the double \<open>884279719003555 / 2^48\<close>, a little below \<open>pi\<close>. In
  \<^verbatim>\<open>wrap_angle\<close> the sum, the remainder and the difference are three float operations.
\<close>

definition pi_dbl :: real where
  "pi_dbl = 884279719003555 / 2 ^ 48"

definition wrap_angle_dbl :: "real \<Rightarrow> bool \<Rightarrow> real" where
  "wrap_angle_dbl ang deg =
     (if deg then fl (float_rem (fl (ang + 180)) 360 - 180)
      else fl (float_rem (fl (ang + pi_dbl)) (fl (2 * pi_dbl)) - pi_dbl))"

text \<open>
  For \<^verbatim>\<open>to_polar\<close> the zero needs its sign: \<open>NegZero\<close> is \<open>-0.0\<close>, and \<open>Val 0\<close> is
  \<open>0.0\<close>. \<^verbatim>\<open>math.atan2\<close> follows the C standard where an argument is a zero: the
  sign of a zero \<open>y\<close> is the sign of the result, which is \<^verbatim>\<open>math.pi\<close> in size when
  \<open>x\<close> is negative or \<open>-0.0\<close> and a zero otherwise; elsewhere it is the angle of the
  point, rounded. \<^verbatim>\<open>math.degrees\<close> multiplies by the double \<open>180 / math.pi\<close>.
\<close>

datatype double = NegZero | Val real

fun val_of :: "double \<Rightarrow> real" where
  "val_of NegZero = 0"
| "val_of (Val v) = v"

fun signbit :: "double \<Rightarrow> bool" where
  "signbit NegZero = True"
| "signbit (Val v) = (v < 0)"

definition rad_to_deg :: real where
  "rad_to_deg = fl (180 / pi_dbl)"

definition atan2_dbl :: "double \<Rightarrow> double \<Rightarrow> double" where
  "atan2_dbl y x =
     (if val_of y = 0 then
        (if signbit x then (if signbit y then Val (- pi_dbl) else Val pi_dbl) else y)
      else if val_of x = 0 then
        (if 0 < val_of y then Val (pi_dbl / 2) else Val (- (pi_dbl / 2)))
      else (let r = fl (atan2 (val_of y) (val_of x))
            in if r = 0 \<and> signbit y then NegZero else Val r))"

definition hypot_dbl :: "double \<Rightarrow> double \<Rightarrow> double" where
  "hypot_dbl x y = Val (fl (hypot (val_of x) (val_of y)))"

definition degrees_dbl :: "double \<Rightarrow> double" where
  "degrees_dbl a = (case a of NegZero \<Rightarrow> NegZero | Val v \<Rightarrow> Val (fl (v * rad_to_deg)))"

definition to_polar_dbl :: "double \<Rightarrow> double \<Rightarrow> bool \<Rightarrow> double \<times> double" where
  "to_polar_dbl x y deg =
     (let mag = hypot_dbl x y;
          ang = atan2_dbl y x
      in if deg then (mag, degrees_dbl ang) else (mag, ang))"

section \<open>Text fields that are not finite numbers\<close>

text \<open>
  \<^verbatim>\<open>float\<close> also accepts texts such as \<open>inf\<close> and \<open>nan\<close>, and then returns a value
  that is not a finite number. \<open>pfx s = None\<close> when \<^verbatim>\<open>float(s)\<close> raises ValueError, and
  \<open>pfx s = Some v\<close> when it returns \<open>v\<close>, which is finite, infinite (of either sign)
  or not a number.
\<close>

datatype parsed = Finite pyfloat | Infinite | NaN

datatype py_error = ValueError | OverflowError

text \<open>
  A run of the script ends in one of three ways. \<open>Raised e\<close>: an exception left the
  script. \<open>Page pg\<close>: the script reached its end with finite values, and \<open>pg\<close> is what
  it put on the page. \<open>NonFinite\<close>: the script went on with an infinite value or a
  not-a-number among its values; such a run is not followed further.
\<close>

datatype outcome = Raised py_error | Page page | NonFinite

definition field_x :: "(string \<Rightarrow> parsed option) \<Rightarrow> string \<Rightarrow> parsed" where
  "field_x pfx s = (case pfx s of Some v \<Rightarrow> v | None \<Rightarrow> Finite 0)"

definition finite_part :: "(string \<Rightarrow> parsed option) \<Rightarrow> string \<Rightarrow> pyfloat option" where
  "finite_part pfx s = (case pfx s of Some (Finite v) \<Rightarrow> Some v | _ \<Rightarrow> None)"

fun is_finite :: "parsed \<Rightarrow> bool" where
  "is_finite (Finite v) = True"
| "is_finite Infinite = False"
| "is_finite NaN = False"

text \<open>
  A real of size \<open>2^1024 - 2^970\<close> or more rounds to no finite double.
\<close>

definition dbl_overflows :: "real \<Rightarrow> bool" where
  "dbl_overflows v = (2 ^ 1024 - 2 ^ 970 \<le> \<bar>v\<bar>)"

text \<open>
  The exceptions of a run. In the mode "Polar to Rectangular" \<^verbatim>\<open>to_rect\<close> calls
  \<^verbatim>\<open>math.cos\<close>, which raises ValueError at an infinite argument (and returns
  not-a-number at not-a-number); the call is outside the \<^verbatim>\<open>try\<close> blocks. With finite
  fields, \<^verbatim>\<open>abs(z)\<close> of the numeric summary raises OverflowError when the magnitude is
  beyond the doubles, and the plot refuses limits that are not finite with ValueError.
  Whether the plotting library draws a plot with finite limits is not part of the
  embedding: \<open>phasor_plot\<close> is what the script asks it to draw.
\<close>

definition script_x :: "(string \<Rightarrow> parsed option) \<Rightarrow> inputs \<Rightarrow> outcome" where
  "script_x pfx i =
     (let a = field_x pfx (text1 i);
          b = field_x pfx (text2 i)
      in if mode i = PolarToRectangular \<and> b = Infinite then Raised ValueError
         else if is_finite a \<and> is_finite b then
           (let pg = script (finite_part pfx) i;
                z = Complex (x_val pg) (y_val pg)
            in if dbl_overflows (abs_complex z) then Raised OverflowError
               else if show_plot i \<and> dbl_overflows (1.2 * max 1 (max \<bar>Re z\<bar> \<bar>Im z\<bar>))
                 then Raised ValueError
               else Page pg)
         else NonFinite)"

text \<open>
  The reader of decimal literals, extended by three of the texts that \<^verbatim>\<open>float\<close> turns
  into values that are not finite; and the page of \<open>scenario_D\<close> with the angle text
  \<open>inf\<close>.
\<close>

definition float_reader :: "string \<Rightarrow> parsed option" where
  "float_reader s =
     (if s = ''inf'' \<or> s = ''-inf'' then Some Infinite
      else if s = ''nan'' then Some NaN
      else map_option Finite (decimal s))"

definition scenario_D_inf :: inputs where
  "scenario_D_inf = scenario_D\<lparr>text2 := ''inf''\<rparr>"

section \<open>Angle wrapping\<close>

lemma wrap_angle_examples:
  shows "wrap_angle 270 True = - 90" and "wrap_angle 180 True = - 180"
    and "wrap_angle pi False = - pi"
proof -
  have "\<lfloor>(450::real) / 360\<rfloor> = 1" by (simp add: floor_eq_iff)
  then show "wrap_angle 270 True = - 90"
    by (simp add: wrap_angle_def pymod_def)
  show "wrap_angle 180 True = - 180" and "wrap_angle pi False = - pi"
    by (simp_all add: wrap_angle_def pymod_def)
qed

text \<open>
  C4. The wrap formula is \<open>((a + period/2) mod period) - period/2\<close> and
  \<open>wrap(270, degrees) = -90\<close>, as claimed; but the image is the interval closed at the
  lower end: at \<open>180\<close> degrees the code returns \<open>-180\<close>, which is not in
  \<open>(-180, 180]\<close>, and at \<open>pi\<close> radians it returns \<open>-pi\<close>.
\<close>

theorem wrap_angle_at_half_period:
  "wrap_angle 180 True = - 180 \<and> \<not> (- 180 < wrap_angle 180 True)
   \<and> wrap_angle pi False = - pi \<and> \<not> (- pi < wrap_angle pi False)
   \<and> wrap_angle 270 True = - 90"
proof -
  have a: "wrap_angle 180 True = - 180"
    by (simp add: wrap_angle_def pymod_def)
  have b: "wrap_angle pi False = - pi"
    by (simp add: wrap_angle_def pymod_def)
  have "\<lfloor>(450::real) / 360\<rfloor> = 1" by (simp add: floor_eq_iff)
  then have c: "wrap_angle 270 True = - 90"
    by (simp add: wrap_angle_def pymod_def)
  from a b c show ?thesis by simp
qed

section \<open>Coordinate transforms\<close>

lemma sqrt3_bounds: shows "1732 / 1000 < sqrt 3" and "sqrt 3 < 17321 / 10000"
proof -
  show "1732 / 1000 < sqrt 3" by (rule real_less_rsqrt) (simp add: power2_eq_square)
  show "sqrt 3 < 17321 / 10000" by (rule real_less_lsqrt) (simp_all add: power2_eq_square)
qed

lemma arctan_le_self: "0 \<le> t \<Longrightarrow> arctan t \<le> t"
proof -
  assume t: "0 \<le> t"
  have "(\<lambda>x. x - arctan x) 0 \<le> (\<lambda>x. x - arctan x) t"
  proof (rule DERIV_nonneg_imp_nondecreasing [OF t], intro exI conjI)
    fix x :: real
    show "((\<lambda>x. x - arctan x) has_real_derivative (1 - inverse (1 + x\<^sup>2))) (at x)"
      by (auto intro!: derivative_eq_intros)
    have "inverse (1 + x\<^sup>2) \<le> 1" by (simp add: inverse_le_1_iff)
    then show "0 \<le> 1 - inverse (1 + x\<^sup>2)" by simp
  qed
  then show ?thesis by simp
qed

lemma atan2_range: "- pi \<le> atan2 y x \<and> atan2 y x \<le> pi"
proof -
  have lo: "- (pi / 2) < arctan (y / x)" by (rule arctan_lbound)
  have hi: "arctan (y / x) < pi / 2" by (rule arctan_ubound)
  have p: "0 < pi" by (rule pi_gt_zero)
  consider (right) "0 < x" | (left) "x < 0" | (axis) "x = 0"
    by linarith
  then show ?thesis
  proof cases
    case right
    then have "atan2 y x = arctan (y / x)" by (simp add: atan2_def)
    with lo hi p show ?thesis by linarith
  next
    case left
    show ?thesis
    proof (cases "0 \<le> y")
      case True
      with left have "y / x \<le> 0" by (simp add: divide_nonneg_neg)
      then have "arctan (y / x) \<le> 0" using arctan_le_iff [of "y / x" 0] by simp
      moreover from left True have "atan2 y x = arctan (y / x) + pi" by (simp add: atan2_def)
      ultimately show ?thesis using lo p by linarith
    next
      case False
      with left have "0 < y / x" by (simp add: divide_neg_neg)
      then have "0 < arctan (y / x)" by simp
      moreover from left False have "atan2 y x = arctan (y / x) - pi" by (simp add: atan2_def)
      ultimately show ?thesis using hi p by linarith
    qed
  next
    case axis
    then have "atan2 y x = pi / 2 \<or> atan2 y x = - (pi / 2) \<or> atan2 y x = 0"
      by (simp add: atan2_def)
    with p show ?thesis by linarith
  qed
qed

lemma hypot_cos_atan2: "hypot x y * cos (atan2 y x) = x"
  and hypot_sin_atan2: "hypot x y * sin (atan2 y x) = y"
proof -
  have key: "sqrt (x\<^sup>2 + y\<^sup>2) = \<bar>x\<bar> * sqrt (1 + (y / x)\<^sup>2)" if "x \<noteq> 0"
  proof -
    from that have "x\<^sup>2 + y\<^sup>2 = x\<^sup>2 * (1 + (y / x)\<^sup>2)"
      by (simp add: field_simps power2_eq_square)
    then show ?thesis by (simp add: real_sqrt_mult)
  qed
  have pos: "0 < sqrt (1 + (y / x)\<^sup>2)"
    by (simp add: add_pos_nonneg)
  consider (right) "0 < x" | (upper) "x < 0" "0 \<le> y" | (lower) "x < 0" "y < 0"
    | (axis) "x = 0"
    by linarith
  then have "hypot x y * cos (atan2 y x) = x \<and> hypot x y * sin (atan2 y x) = y"
  proof cases
    case right
    then have a: "atan2 y x = arctan (y / x)" by (simp add: atan2_def)
    from right pos key show ?thesis
      by (simp add: a hypot_def cos_arctan sin_arctan)
  next
    case upper
    then have a: "atan2 y x = arctan (y / x) + pi" by (simp add: atan2_def)
    from upper pos key show ?thesis
      by (simp add: a hypot_def cos_arctan sin_arctan)
  next
    case lower
    then have a: "atan2 y x = arctan (y / x) - pi" by (simp add: atan2_def)
    have "cos (arctan (y / x) - pi) = - cos (arctan (y / x))"
      and "sin (arctan (y / x) - pi) = - sin (arctan (y / x))"
      by (simp_all add: cos_diff sin_diff)
    with lower pos key show ?thesis
      by (simp add: a hypot_def cos_arctan sin_arctan)
  next
    case axis
    then show ?thesis by (simp add: atan2_def hypot_def)
  qed
  then show "hypot x y * cos (atan2 y x) = x" and "hypot x y * sin (atan2 y x) = y"
    by simp_all
qed

text \<open>
  In exact arithmetic \<open>to_rect\<close> undoes \<open>to_polar\<close> with no error at all, in both
  units; what the round trip loses in the script is the rounding of the float
  operations, which the exact reading does not show.
\<close>

lemma to_rect_to_polar_exact:
  "to_rect (fst (to_polar x y deg)) (snd (to_polar x y deg)) deg = (x, y)"
proof -
  have "radians (degrees t) = t" for t
    using pi_gt_zero by (simp add: radians_def degrees_def)
  then show ?thesis
    by (simp add: to_rect_def to_polar_def Let_def hypot_cos_atan2 hypot_sin_atan2)
qed

lemma arctan_inv_sqrt3: "arctan (1 / sqrt 3) = pi / 6"
proof -
  have "arctan (tan (pi / 6)) = pi / 6"
    by (rule arctan_tan) (use pi_gt_zero in linarith)+
  then show ?thesis by (simp add: tan_30)
qed

lemma sqrt3_fine: shows "17320508 / 10000000 < sqrt 3" and "sqrt 3 < 17320509 / 10000000"
proof -
  show "17320508 / 10000000 < sqrt 3"
    by (rule real_less_rsqrt) (simp add: power2_eq_square)
  show "sqrt 3 < 17320509 / 10000000"
    by (rule real_less_lsqrt) (simp_all add: power2_eq_square)
qed

lemma scenario_B_mag:
  shows "4999999 / 1000000 < hypot (4330127 / 1000000) (5 / 2)"
    and "hypot (4330127 / 1000000) (5 / 2) < 5"
proof -
  show "4999999 / 1000000 < hypot (4330127 / 1000000) (5 / 2)"
    unfolding hypot_def by (rule real_less_rsqrt) (simp add: power2_eq_square)
  show "hypot (4330127 / 1000000) (5 / 2) < 5"
    unfolding hypot_def by (rule real_less_lsqrt) (simp_all add: power2_eq_square)
qed

lemma scenario_B_ang:
  "\<bar>degrees (atan2 (5 / 2) (4330127 / 1000000)) - 30\<bar> < 1 / 100000"
proof -
  define q :: real where "q = 2500000 / 4330127"
  define b :: real where "b = 1 / sqrt 3"
  define t where "t = (q - b) / (1 + q * b)"
  have a: "atan2 (5 / 2) (4330127 / 1000000) = arctan q"
    by (simp add: atan2_def q_def)
  have s3: "0 < sqrt 3" by simp
  have b_hi: "b < q"
    unfolding b_def q_def using sqrt3_fine(1) s3 by (simp add: field_simps)
  have b_lo: "10000000 / 17320509 < b"
    unfolding b_def using sqrt3_fine(2) s3 by (simp add: field_simps)
  have b_pos: "0 < b" unfolding b_def by simp
  have q_pos: "0 < q" unfolding q_def by simp
  have d: "q - b < 4 / 100000000"
    using b_lo unfolding q_def by simp
  have den: "1 \<le> 1 + q * b" using q_pos b_pos by simp
  have t_pos: "0 \<le> t" unfolding t_def using b_hi den by simp
  have "(q - b) / (1 + q * b) \<le> (q - b) / 1"
    by (rule frac_le) (use b_hi den in simp_all)
  then have "t \<le> q - b" by (simp add: t_def)
  with d have t_hi: "t < 4 / 100000000" by linarith
  have "arctan q + arctan (- b) = arctan ((q + (- b)) / (1 - q * (- b)))"
    by (rule arctan_add) (use b_pos b_hi q_pos in \<open>simp_all add: q_def\<close>)
  then have e: "arctan q - pi / 6 = arctan t"
    by (simp add: arctan_minus t_def b_def [symmetric] arctan_inv_sqrt3 [unfolded b_def [symmetric]])
  have "0 \<le> arctan t" using t_pos arctan_le_iff [of 0 t] by simp
  moreover have "arctan t \<le> t" using t_pos by (rule arctan_le_self)
  ultimately have r: "0 \<le> arctan t" "arctan t < 4 / 100000000"
    using t_hi by linarith+
  have k: "180 / pi \<le> 90" using pi_ge_two by (simp add: field_simps)
  have k0: "0 \<le> 180 / pi" using pi_gt_zero by simp
  have "arctan t * (180 / pi) \<le> arctan t * 90"
    using k r(1) by (rule mult_left_mono)
  with r(2) have u: "arctan t * (180 / pi) < 1 / 100000" by linarith
  have l: "0 \<le> arctan t * (180 / pi)"
    using r(1) k0 by (rule mult_nonneg_nonneg)
  have "degrees (arctan q) - 30 = (arctan q - pi / 6) * (180 / pi)"
    by (simp add: degrees_def field_simps)
  then have "degrees (arctan q) - 30 = arctan t * (180 / pi)"
    by (simp only: e)
  with u l have "\<bar>degrees (arctan q) - 30\<bar> < 1 / 100000"
    by (simp only: abs_of_nonneg)
  then show ?thesis by (simp only: a)
qed

lemma degrees_range:
  assumes "- pi \<le> a" and "a \<le> pi"
  shows "- 180 \<le> degrees a" and "degrees a \<le> 180"
proof -
  have p: "0 < pi" by (rule pi_gt_zero)
  from assms(1) p show "- 180 \<le> degrees a"
    by (simp add: degrees_def field_simps)
  from assms(2) p show "degrees a \<le> 180"
    by (simp add: degrees_def field_simps)
qed

lemma to_polar_negative_real_axis: "to_polar (- 1) 0 True = (1, 180)"
  by (simp add: to_polar_def Let_def hypot_def atan2_def degrees_def)

text \<open>
  C2. \<open>to_rect\<close> turns a degree angle into radians (and takes a radian angle as it
  is), and returns \<open>(mag * cos theta, mag * sin theta)\<close>. For magnitude \<open>5\<close> at
  \<open>30\<close> degrees this is \<open>(5 * sqrt 3 / 2, 5 / 2)\<close>, that is \<open>(4.330..., 2.5)\<close>.
\<close>

theorem to_rect_formula:
  "to_rect mag ang True = (mag * cos (ang * (pi / 180)), mag * sin (ang * (pi / 180)))
   \<and> to_rect mag ang False = (mag * cos ang, mag * sin ang)
   \<and> to_rect 5 30 True = (5 * sqrt 3 / 2, 5 / 2)
   \<and> 4330 / 1000 < fst (to_rect 5 30 True) \<and> fst (to_rect 5 30 True) < 4331 / 1000
   \<and> snd (to_rect 5 30 True) = 2500 / 1000"
proof -
  have f: "to_rect mag ang True = (mag * cos (ang * (pi / 180)), mag * sin (ang * (pi / 180)))"
    by (simp add: to_rect_def radians_def Let_def)
  have g: "to_rect mag ang False = (mag * cos ang, mag * sin ang)"
    by (simp add: to_rect_def Let_def)
  have "(30::real) * (pi / 180) = pi / 6" by simp
  then have h: "to_rect 5 30 True = (5 * sqrt 3 / 2, 5 / 2)"
    by (simp add: to_rect_def radians_def Let_def cos_30 sin_30)
  from sqrt3_bounds have "4330 / 1000 < 5 * sqrt 3 / 2" and "5 * sqrt 3 / 2 < 4331 / 1000"
    by simp_all
  with f g h show ?thesis by simp
qed

section \<open>Rounding\<close>

lemma round_half_even_near:
  assumes "of_int k \<le> r" and "r < of_int k + 1 / 2"
  shows "round_half_even r = k"
proof -
  from assms have "\<lfloor>r\<rfloor> = k" by (simp add: floor_eq_iff)
  with assms show ?thesis by (simp add: round_half_even_def Let_def)
qed

lemma round_half_even_of_int: "round_half_even (of_int k) = k"
  by (rule round_half_even_near) simp_all

lemma round_half_even_below:
  assumes "of_int k - 1 / 2 < r" and "r \<le> of_int k"
  shows "round_half_even r = k"
proof (cases "r = of_int k")
  case True
  then show ?thesis by (simp add: round_half_even_of_int)
next
  case False
  with assms have "\<lfloor>r\<rfloor> = k - 1" by (simp add: floor_eq_iff)
  with assms show ?thesis by (simp add: round_half_even_def Let_def)
qed

lemma round_half_even_error: "\<bar>of_int (round_half_even r) - r\<bar> \<le> 1 / 2"
proof -
  define f where "f = \<lfloor>r\<rfloor>"
  have lo: "of_int f \<le> r" and hi: "r < of_int f + 1"
    unfolding f_def by linarith+
  consider "r - of_int f < 1 / 2" | "1 / 2 < r - of_int f" | "r - of_int f = 1 / 2"
    by linarith
  then show ?thesis
  proof cases
    case 1
    then have "round_half_even r = f" by (simp add: round_half_even_def Let_def f_def)
    with 1 lo show ?thesis by simp
  next
    case 2
    then have "round_half_even r = f + 1" by (simp add: round_half_even_def Let_def f_def)
    with 2 hi show ?thesis by simp
  next
    case 3
    then have "round_half_even r = f \<or> round_half_even r = f + 1"
      by (simp add: round_half_even_def Let_def f_def)
    with 3 show ?thesis by auto
  qed
qed

lemma round_half_even_le:
  assumes "r \<le> of_int k"
  shows "round_half_even r \<le> k"
proof -
  have "of_int (round_half_even r) \<le> r + 1 / 2"
    using round_half_even_error [of r] by linarith
  with assms have "(of_int (round_half_even r) :: real) < of_int k + 1" by linarith
  then have "(of_int (round_half_even r) :: real) < of_int (k + 1)" by simp
  then have "round_half_even r < k + 1" by (simp only: of_int_less_iff)
  then show ?thesis by simp
qed

lemma round_half_even_ge:
  assumes "of_int k \<le> r"
  shows "k \<le> round_half_even r"
proof -
  have "r - 1 / 2 \<le> of_int (round_half_even r)"
    using round_half_even_error [of r] by linarith
  with assms have "(of_int (k - 1) :: real) < of_int (round_half_even r)" by simp
  then have "k - 1 < round_half_even r" by (simp only: of_int_less_iff)
  then show ?thesis by simp
qed

lemma py_round_error: "\<bar>py_round v n - v\<bar> \<le> 1 / (2 * 10 ^ n)"
proof -
  have pos: "(0::real) < 10 ^ n" by simp
  have "py_round v n - v = (of_int (round_half_even (v * 10 ^ n)) - v * 10 ^ n) / 10 ^ n"
    by (simp add: py_round_def field_simps)
  then have "\<bar>py_round v n - v\<bar> = \<bar>of_int (round_half_even (v * 10 ^ n)) - v * 10 ^ n\<bar> / 10 ^ n"
    by (simp add: abs_divide)
  also have "\<dots> \<le> (1 / 2) / 10 ^ n"
    by (rule divide_right_mono [OF round_half_even_error]) simp
  finally show ?thesis by simp
qed

lemma py_round_int: "py_round (of_int k) n = of_int k"
proof -
  have "(of_int k :: real) * 10 ^ n = of_int (k * 10 ^ n)" by simp
  then have "round_half_even (of_int k * 10 ^ n) = k * 10 ^ n"
    by (simp only: round_half_even_of_int)
  then show ?thesis by (simp add: py_round_def)
qed

lemma py_round_between:
  assumes "of_int a \<le> v" and "v \<le> of_int b"
  shows "of_int a \<le> py_round v n" and "py_round v n \<le> of_int b"
proof -
  have pos: "(0::real) < 10 ^ n" by simp
  from assms(1) have "(of_int (a * 10 ^ n) :: real) \<le> v * 10 ^ n"
    by simp
  then have "a * 10 ^ n \<le> round_half_even (v * 10 ^ n)" by (rule round_half_even_ge)
  then have "(of_int (a * 10 ^ n) :: real) \<le> of_int (round_half_even (v * 10 ^ n))"
    by (simp only: of_int_le_iff)
  then show "of_int a \<le> py_round v n"
    using pos by (simp add: py_round_def pos_le_divide_eq)
  from assms(2) have "v * 10 ^ n \<le> (of_int (b * 10 ^ n) :: real)"
    by simp
  then have "round_half_even (v * 10 ^ n) \<le> b * 10 ^ n" by (rule round_half_even_le)
  then have "(of_int (round_half_even (v * 10 ^ n)) :: real) \<le> of_int (b * 10 ^ n)"
    by (simp only: of_int_le_iff)
  then show "py_round v n \<le> of_int b"
    using pos by (simp add: py_round_def pos_divide_le_eq)
qed

section \<open>Doubles at the ends of the range\<close>

text \<open>
  \<open>fl\<close> on the binade of its argument: between \<open>L = 2^e\<close> and \<open>2 * L\<close> the doubles
  are the multiples of \<open>L / 2^52\<close>.
\<close>

lemma binade_eq:
  assumes "2 powr of_int e \<le> \<bar>v\<bar>" and "\<bar>v\<bar> < 2 powr (of_int e + 1)"
  shows "binade v = e"
proof -
  have "(0::real) < 2 powr of_int e" by simp
  with assms(1) have pos: "0 < \<bar>v\<bar>" by linarith
  from assms(1) pos have "of_int e \<le> log 2 \<bar>v\<bar>" by (simp add: powr_le_iff)
  moreover from assms(2) pos have "log 2 \<bar>v\<bar> < of_int e + 1" by (simp add: less_powr_iff)
  ultimately show ?thesis unfolding binade_def by (simp add: floor_eq_iff)
qed

lemma fl_eval:
  assumes "L = 2 powr of_int e" and "- 1022 \<le> e" and "L \<le> \<bar>v\<bar>" and "\<bar>v\<bar> < 2 * L"
  shows "fl v = of_int (round_half_even (v * 2 ^ 52 / L)) * (L / 2 ^ 52)"
proof -
  have L: "0 < L" by (simp add: assms(1))
  with assms(3) have nz: "v \<noteq> 0" by auto
  have "2 * L = 2 powr (of_int e + 1)" by (simp add: assms(1) powr_add)
  with assms have "binade v = e" by (intro binade_eq) simp_all
  with assms(2) have "quantum v = 2 powr (of_int e - 52)" by (simp add: quantum_def max_def)
  also have "\<dots> = L / 2 ^ 52" by (simp add: assms(1) powr_diff)
  finally have q: "quantum v = L / 2 ^ 52" .
  have "v / (L / 2 ^ 52) = v * 2 ^ 52 / L" by simp
  with nz show ?thesis unfolding fl_def q by (simp only: if_False)
qed

lemma fl_zero: "fl 0 = 0"
  by (simp add: fl_def)

lemma fl_small_ints:
  shows "fl 1 = 1" and "fl 180 = 180" and "fl (- 180) = - 180" and "fl 360 = 360"
proof -
  have "fl 1 = of_int (round_half_even (1 * 2 ^ 52 / 1)) * (1 / 2 ^ 52)"
    by (rule fl_eval [where e = 0]) simp_all
  then show "fl 1 = 1" by (simp add: round_half_even_def Let_def)
  have "fl 180 = of_int (round_half_even (180 * 2 ^ 52 / 128)) * (128 / 2 ^ 52)"
    by (rule fl_eval [where e = 7]) simp_all
  then show "fl 180 = 180" by (simp add: round_half_even_def Let_def)
  have "fl (- 180) = of_int (round_half_even (- 180 * 2 ^ 52 / 128)) * (128 / 2 ^ 52)"
    by (rule fl_eval [where e = 7]) simp_all
  then show "fl (- 180) = - 180" by (simp add: round_half_even_def Let_def)
  have "fl 360 = of_int (round_half_even (360 * 2 ^ 52 / 256)) * (256 / 2 ^ 52)"
    by (rule fl_eval [where e = 8]) simp_all
  then show "fl 360 = 360" by (simp add: round_half_even_def Let_def)
qed

lemma fl_360_tie: "fl (360 - 1 / 2 ^ 45) = 360"
proof -
  have "fl (360 - 1 / 2 ^ 45)
        = of_int (round_half_even ((360 - 1 / 2 ^ 45) * 2 ^ 52 / 256)) * (256 / 2 ^ 52)"
    by (rule fl_eval [where e = 8]) simp_all
  also have "\<dots> = 360"
    by (simp add: round_half_even_def Let_def)
  finally show ?thesis .
qed

lemma fl_tiny: "fl (- (1 / 2 ^ 45)) = - (1 / 2 ^ 45)"
proof -
  have "fl (- (1 / 2 ^ 45))
        = of_int (round_half_even (- (1 / 2 ^ 45) * 2 ^ 52 / (1 / 2 ^ 45))) * ((1 / 2 ^ 45) / 2 ^ 52)"
    by (rule fl_eval [where e = "- 45"]) (simp_all add: powr_minus_divide)
  also have "\<dots> = - (1 / 2 ^ 45)"
    by (simp add: round_half_even_def Let_def)
  finally show ?thesis .
qed

lemma fl_below_minus_180: "fl (- 180 - 1 / 2 ^ 45) = - 180 - 1 / 2 ^ 45"
proof -
  have "fl (- 180 - 1 / 2 ^ 45)
        = of_int (round_half_even ((- 180 - 1 / 2 ^ 45) * 2 ^ 52 / 128)) * (128 / 2 ^ 52)"
    by (rule fl_eval [where e = 7]) simp_all
  then show ?thesis by (simp add: round_half_even_def Let_def)
qed

lemma wrap_angle_dbl_steps:
  shows "wrap_angle_dbl (- 180 - 1 / 2 ^ 45) True = 180"
    and "wrap_angle_dbl 180 True = - 180"
proof -
  have s: "- 180 - 1 / 2 ^ 45 + 180 = - (1 / 2 ^ 45 :: real)" by simp
  have m: "fmod (- (1 / 2 ^ 45)) 360 = - (1 / 2 ^ 45)"
    by (simp add: fmod_def trunc_int_def ceiling_eq_iff)
  have r: "float_rem (- (1 / 2 ^ 45)) 360 = 360"
    unfolding float_rem_def Let_def m using fl_360_tie by simp
  have "wrap_angle_dbl (- 180 - 1 / 2 ^ 45) True
          = fl (float_rem (fl (- 180 - 1 / 2 ^ 45 + 180)) 360 - 180)"
    by (simp only: wrap_angle_dbl_def if_True)
  also have "\<dots> = fl (float_rem (fl (- (1 / 2 ^ 45))) 360 - 180)" by (simp only: s)
  also have "\<dots> = fl (float_rem (- (1 / 2 ^ 45)) 360 - 180)" by (simp only: fl_tiny)
  also have "\<dots> = fl (360 - 180)" by (simp only: r)
  also have "\<dots> = 180" by (simp add: fl_small_ints)
  finally show "wrap_angle_dbl (- 180 - 1 / 2 ^ 45) True = 180" .
  have "fmod 360 360 = 0" by (simp add: fmod_def trunc_int_def)
  then have "float_rem 360 360 = 0" by (simp add: float_rem_def)
  then show "wrap_angle_dbl 180 True = - 180"
    by (simp add: wrap_angle_dbl_def fl_small_ints)
qed

lemma fl_pi_dbl:
  shows "fl pi_dbl = pi_dbl" and "fl (- pi_dbl) = - pi_dbl" and "fl (2 * pi_dbl) = 2 * pi_dbl"
proof -
  have "fl pi_dbl = of_int (round_half_even (pi_dbl * 2 ^ 52 / 2)) * (2 / 2 ^ 52)"
    by (rule fl_eval [where e = 1]) (simp_all add: pi_dbl_def)
  then show "fl pi_dbl = pi_dbl" by (simp add: pi_dbl_def round_half_even_def Let_def)
  have "fl (- pi_dbl) = of_int (round_half_even (- pi_dbl * 2 ^ 52 / 2)) * (2 / 2 ^ 52)"
    by (rule fl_eval [where e = 1]) (simp_all add: pi_dbl_def)
  then show "fl (- pi_dbl) = - pi_dbl" by (simp add: pi_dbl_def round_half_even_def Let_def)
  have "fl (2 * pi_dbl) = of_int (round_half_even (2 * pi_dbl * 2 ^ 52 / 4)) * (4 / 2 ^ 52)"
    by (rule fl_eval [where e = 2]) (simp_all add: pi_dbl_def)
  then show "fl (2 * pi_dbl) = 2 * pi_dbl" by (simp add: pi_dbl_def round_half_even_def Let_def)
qed

lemma fl_below_minus_pi: "fl (- pi_dbl - 1 / 2 ^ 51) = - pi_dbl - 1 / 2 ^ 51"
proof -
  have "fl (- pi_dbl - 1 / 2 ^ 51)
        = of_int (round_half_even ((- pi_dbl - 1 / 2 ^ 51) * 2 ^ 52 / 2)) * (2 / 2 ^ 52)"
    by (rule fl_eval [where e = 1]) (simp_all add: pi_dbl_def)
  then show ?thesis by (simp add: pi_dbl_def round_half_even_def Let_def)
qed

lemma fl_tiny_rad: "fl (- (1 / 2 ^ 51)) = - (1 / 2 ^ 51)"
proof -
  have "fl (- (1 / 2 ^ 51))
        = of_int (round_half_even (- (1 / 2 ^ 51) * 2 ^ 52 / (1 / 2 ^ 51))) * ((1 / 2 ^ 51) / 2 ^ 52)"
    by (rule fl_eval [where e = "- 51"]) (simp_all add: powr_minus_divide)
  also have "\<dots> = - (1 / 2 ^ 51)"
    by (simp add: round_half_even_def Let_def)
  finally show ?thesis .
qed

lemma fl_two_pi_tie: "fl (2 * pi_dbl - 1 / 2 ^ 51) = 2 * pi_dbl"
proof -
  have "fl (2 * pi_dbl - 1 / 2 ^ 51)
        = of_int (round_half_even ((2 * pi_dbl - 1 / 2 ^ 51) * 2 ^ 52 / 4)) * (4 / 2 ^ 52)"
    by (rule fl_eval [where e = 2]) (simp_all add: pi_dbl_def)
  then show ?thesis by (simp add: pi_dbl_def round_half_even_def Let_def)
qed

lemma wrap_angle_dbl_steps_rad:
  shows "wrap_angle_dbl (- pi_dbl - 1 / 2 ^ 51) False = pi_dbl"
    and "wrap_angle_dbl pi_dbl False = - pi_dbl"
proof -
  have p: "0 < pi_dbl" by (simp add: pi_dbl_def)
  have s: "- pi_dbl - 1 / 2 ^ 51 + pi_dbl = - (1 / 2 ^ 51)" by simp
  have "- (1 / 2 ^ 51) / (2 * pi_dbl) \<le> 0" using p by simp
  moreover have "- 1 < - (1 / 2 ^ 51) / (2 * pi_dbl)" by (simp add: pi_dbl_def)
  ultimately have c: "\<lceil>- (1 / 2 ^ 51) / (2 * pi_dbl)\<rceil> = 0"
    by (simp add: ceiling_eq_iff)
  have n: "\<not> 0 \<le> - (1 / 2 ^ 51) / (2 * pi_dbl)" using p by (simp add: field_simps)
  have m: "fmod (- (1 / 2 ^ 51)) (2 * pi_dbl) = - (1 / 2 ^ 51)"
    unfolding fmod_def trunc_int_def using n c by simp
  have t: "- (1 / 2 ^ 51) + 2 * pi_dbl = 2 * pi_dbl - 1 / 2 ^ 51" by simp
  have r: "float_rem (- (1 / 2 ^ 51)) (2 * pi_dbl) = 2 * pi_dbl"
    unfolding float_rem_def Let_def m t fl_two_pi_tie using p by simp
  have "wrap_angle_dbl (- pi_dbl - 1 / 2 ^ 51) False
          = fl (float_rem (fl (- pi_dbl - 1 / 2 ^ 51 + pi_dbl)) (fl (2 * pi_dbl)) - pi_dbl)"
    by (simp only: wrap_angle_dbl_def if_False)
  also have "\<dots> = fl (float_rem (fl (- (1 / 2 ^ 51))) (2 * pi_dbl) - pi_dbl)"
    by (simp only: s fl_pi_dbl)
  also have "\<dots> = fl (float_rem (- (1 / 2 ^ 51)) (2 * pi_dbl) - pi_dbl)"
    by (simp only: fl_tiny_rad)
  also have "\<dots> = fl (2 * pi_dbl - pi_dbl)" by (simp only: r)
  also have "\<dots> = pi_dbl" by (simp add: fl_pi_dbl)
  finally show "wrap_angle_dbl (- pi_dbl - 1 / 2 ^ 51) False = pi_dbl" .
  have "fmod (2 * pi_dbl) (2 * pi_dbl) = 0" using p by (simp add: fmod_def trunc_int_def)
  then have z: "float_rem (2 * pi_dbl) (2 * pi_dbl) = 0" by (simp add: float_rem_def)
  have "wrap_angle_dbl pi_dbl False
          = fl (float_rem (fl (pi_dbl + pi_dbl)) (fl (2 * pi_dbl)) - pi_dbl)"
    by (simp only: wrap_angle_dbl_def if_False)
  also have "pi_dbl + pi_dbl = 2 * pi_dbl" by simp
  also have "fl (float_rem (fl (2 * pi_dbl)) (fl (2 * pi_dbl)) - pi_dbl)
              = fl (float_rem (2 * pi_dbl) (2 * pi_dbl) - pi_dbl)"
    by (simp only: fl_pi_dbl)
  also have "\<dots> = fl (0 - pi_dbl)" by (simp only: z)
  also have "\<dots> = - pi_dbl" by (simp add: fl_pi_dbl)
  finally show "wrap_angle_dbl pi_dbl False = - pi_dbl" .
qed

text \<open>
  C5. On doubles wrapping is not idempotent. The double just below \<open>-180\<close> is
  \<open>-180 - 2^-45\<close> (printed \<open>-180.00000000000003\<close>). Adding \<open>180\<close> gives
  \<open>-2^-45\<close>; the remainder modulo \<open>360\<close> is \<open>360 - 2^-45\<close> rounded, which is
  \<open>360.0\<close>; so the angle is wrapped to \<open>180.0\<close>. Wrapping \<open>180.0\<close> gives
  \<open>-180.0\<close>, the value of C4 outside \<open>(-180, 180]\<close>. So \<open>wrap(wrap(a))\<close> is
  \<open>-180.0\<close> where \<open>wrap(a)\<close> is \<open>180.0\<close>. In radians the same happens at the
  double just below \<open>-math.pi\<close>, which is \<open>-math.pi - 2^-51\<close>.
\<close>

theorem wrap_angle_not_idempotent:
  "fl (- 180 - 1 / 2 ^ 45) = - 180 - 1 / 2 ^ 45
   \<and> wrap_angle_dbl (- 180 - 1 / 2 ^ 45) True = 180
   \<and> wrap_angle_dbl (wrap_angle_dbl (- 180 - 1 / 2 ^ 45) True) True = - 180
   \<and> wrap_angle_dbl (wrap_angle_dbl (- 180 - 1 / 2 ^ 45) True) True
       \<noteq> wrap_angle_dbl (- 180 - 1 / 2 ^ 45) True
   \<and> fl (- pi_dbl - 1 / 2 ^ 51) = - pi_dbl - 1 / 2 ^ 51
   \<and> wrap_angle_dbl (- pi_dbl - 1 / 2 ^ 51) False = pi_dbl
   \<and> wrap_angle_dbl (wrap_angle_dbl (- pi_dbl - 1 / 2 ^ 51) False) False = - pi_dbl
   \<and> wrap_angle_dbl (wrap_angle_dbl (- pi_dbl - 1 / 2 ^ 51) False) False
       \<noteq> wrap_angle_dbl (- pi_dbl - 1 / 2 ^ 51) False"
proof -
  have p: "0 < pi_dbl" by (simp add: pi_dbl_def)
  note d = wrap_angle_dbl_steps and r = wrap_angle_dbl_steps_rad
  have d2: "wrap_angle_dbl (wrap_angle_dbl (- 180 - 1 / 2 ^ 45) True) True = - 180"
    by (simp only: d)
  have r2: "wrap_angle_dbl (wrap_angle_dbl (- pi_dbl - 1 / 2 ^ 51) False) False = - pi_dbl"
    by (simp only: r)
  have dn: "wrap_angle_dbl (wrap_angle_dbl (- 180 - 1 / 2 ^ 45) True) True
       \<noteq> wrap_angle_dbl (- 180 - 1 / 2 ^ 45) True"
    using d2 d(1) by simp
  have rn: "wrap_angle_dbl (wrap_angle_dbl (- pi_dbl - 1 / 2 ^ 51) False) False
       \<noteq> wrap_angle_dbl (- pi_dbl - 1 / 2 ^ 51) False"
    using r2 r(1) p by simp
  from fl_below_minus_180 d(1) d2 dn fl_below_minus_pi r(1) r2 rn show ?thesis
    by (intro conjI)
qed

lemma rad_to_deg_value: "rad_to_deg = 1007958012753983 / 2 ^ 44"
proof -
  have "fl (180 / pi_dbl)
        = of_int (round_half_even (180 / pi_dbl * 2 ^ 52 / 32)) * (32 / 2 ^ 52)"
    by (rule fl_eval [where e = 5]) (simp_all add: pi_dbl_def)
  also have "round_half_even (180 / pi_dbl * 2 ^ 52 / 32) = 8063664102031864"
    by (rule round_half_even_near) (simp_all add: pi_dbl_def)
  finally show ?thesis by (simp add: rad_to_deg_def)
qed

lemma degrees_of_minus_pi_dbl: "fl (- pi_dbl * rad_to_deg) = - 180"
proof -
  have "fl (- pi_dbl * rad_to_deg)
        = of_int (round_half_even (- pi_dbl * rad_to_deg * 2 ^ 52 / 128)) * (128 / 2 ^ 52)"
    by (rule fl_eval [where e = 7]) (simp_all add: pi_dbl_def rad_to_deg_value)
  also have "round_half_even (- pi_dbl * rad_to_deg * 2 ^ 52 / 128) = - 6333186975989760"
    by (rule round_half_even_near) (simp_all add: pi_dbl_def rad_to_deg_value)
  finally show ?thesis by simp
qed

lemma degrees_of_pi_dbl: "fl (pi_dbl * rad_to_deg) = 180"
proof -
  have "fl (pi_dbl * rad_to_deg)
        = of_int (round_half_even (pi_dbl * rad_to_deg * 2 ^ 52 / 128)) * (128 / 2 ^ 52)"
    by (rule fl_eval [where e = 7]) (simp_all add: pi_dbl_def rad_to_deg_value)
  also have "round_half_even (pi_dbl * rad_to_deg * 2 ^ 52 / 128) = 6333186975989760"
    by (rule round_half_even_below) (simp_all add: pi_dbl_def rad_to_deg_value)
  finally show ?thesis by simp
qed

lemma degrees_dbl_minus_pi: "degrees_dbl (Val (- pi_dbl)) = Val (- 180)"
  by (simp only: degrees_dbl_def double.case degrees_of_minus_pi_dbl)

lemma degrees_dbl_pi: "degrees_dbl (Val pi_dbl) = Val 180"
  by (simp only: degrees_dbl_def double.case degrees_of_pi_dbl)

lemma degrees_dbl_zero: "degrees_dbl (Val 0) = Val 0"
  by (simp add: degrees_dbl_def fl_zero)

lemma atan2_dbl_axis:
  shows "atan2_dbl NegZero (Val (- 1)) = Val (- pi_dbl)"
    and "atan2_dbl (Val 0) (Val (- 1)) = Val pi_dbl"
    and "atan2_dbl (Val 0) NegZero = Val pi_dbl"
    and "atan2_dbl (Val 0) (Val 0) = Val 0"
  by (simp_all add: atan2_dbl_def)

lemma hypot_dbl_axis:
  shows "hypot_dbl (Val (- 1)) NegZero = Val 1"
    and "hypot_dbl (Val (- 1)) (Val 0) = Val 1"
    and "hypot_dbl NegZero (Val 0) = Val 0"
    and "hypot_dbl (Val 0) (Val 0) = Val 0"
  by (simp_all add: hypot_dbl_def hypot_def fl_small_ints fl_zero)

lemma to_polar_dbl_axis:
  shows "to_polar_dbl (Val (- 1)) NegZero True = (Val 1, Val (- 180))"
    and "to_polar_dbl (Val (- 1)) NegZero False = (Val 1, Val (- pi_dbl))"
    and "to_polar_dbl (Val (- 1)) (Val 0) True = (Val 1, Val 180)"
    and "to_polar_dbl NegZero (Val 0) True = (Val 0, Val 180)"
    and "to_polar_dbl NegZero (Val 0) False = (Val 0, Val pi_dbl)"
    and "to_polar_dbl (Val 0) (Val 0) True = (Val 0, Val 0)"
    and "to_polar_dbl (Val 0) (Val 0) False = (Val 0, Val 0)"
  by (simp_all only: to_polar_dbl_def Let_def if_True if_False atan2_dbl_axis hypot_dbl_axis
      degrees_dbl_minus_pi degrees_dbl_pi degrees_dbl_zero)

text \<open>
  C3, as stated, fails at the lower end of the range and at the origin. For the real part
  \<open>-1.0\<close> and the imaginary part \<open>-0.0\<close> the angle is \<open>-math.pi\<close>, and in degrees
  \<open>-180.0\<close>, which is not in \<open>(-180, 180]\<close>. For the real part \<open>-0.0\<close> and the
  imaginary part \<open>0.0\<close>, a pair of zeros, the angle is \<open>180.0\<close> and not \<open>0\<close>.
\<close>

theorem to_polar_lower_end_attained:
  "to_polar_dbl (Val (- 1)) NegZero True = (Val 1, Val (- 180))
   \<and> \<not> (- 180 < val_of (snd (to_polar_dbl (Val (- 1)) NegZero True)))
   \<and> to_polar_dbl (Val (- 1)) NegZero False = (Val 1, Val (- pi_dbl))
   \<and> to_polar_dbl NegZero (Val 0) True = (Val 0, Val 180)
   \<and> val_of (snd (to_polar_dbl NegZero (Val 0) True)) \<noteq> 0"
proof -
  note a = to_polar_dbl_axis(1,2,4)
  have "\<not> (- 180 < val_of (snd (to_polar_dbl (Val (- 1)) NegZero True)))"
    and "val_of (snd (to_polar_dbl NegZero (Val 0) True)) \<noteq> 0"
    by (simp_all add: a)
  with a show ?thesis by (intro conjI)
qed

text \<open>
  C3, amended. \<open>to_polar\<close> returns \<open>hypot x y\<close> and \<open>atan2 y x\<close>, the latter in
  degrees when asked. The angle is the signed angle of the point and lies in the closed
  range from \<open>-pi\<close> to \<open>pi\<close>, in degrees from \<open>-180\<close> to \<open>180\<close>. At
  \<open>(4.330127, 2.5)\<close> the magnitude is within \<open>10^-6\<close> of \<open>5\<close> and the angle within
  \<open>10^-5\<close> of \<open>30\<close> degrees. On doubles the point \<open>(-1.0, 0.0)\<close> has the angle
  \<open>180.0\<close>, and at \<open>(0.0, 0.0)\<close> magnitude and angle are \<open>0.0\<close> in both units.
\<close>

theorem to_polar_closed_range:
  "to_polar x y True = (hypot x y, degrees (atan2 y x))
   \<and> to_polar x y False = (hypot x y, atan2 y x)
   \<and> - pi \<le> atan2 y x \<and> atan2 y x \<le> pi
   \<and> - 180 \<le> degrees (atan2 y x) \<and> degrees (atan2 y x) \<le> 180
   \<and> \<bar>fst (to_polar (4330127 / 1000000) (5 / 2) True) - 5\<bar> < 1 / 1000000
   \<and> \<bar>snd (to_polar (4330127 / 1000000) (5 / 2) True) - 30\<bar> < 1 / 100000
   \<and> to_polar_dbl (Val (- 1)) (Val 0) True = (Val 1, Val 180)
   \<and> to_polar_dbl (Val 0) (Val 0) True = (Val 0, Val 0)
   \<and> to_polar_dbl (Val 0) (Val 0) False = (Val 0, Val 0)"
proof -
  have a: "to_polar x y True = (hypot x y, degrees (atan2 y x))"
    and b: "to_polar x y False = (hypot x y, atan2 y x)"
    by (simp_all add: to_polar_def Let_def)
  have e: "- pi \<le> atan2 y x" "atan2 y x \<le> pi"
    using atan2_range [of y x] by simp_all
  note f = degrees_range [OF e]
  have g: "\<bar>fst (to_polar (4330127 / 1000000) (5 / 2) True) - 5\<bar> < 1 / 1000000"
    using scenario_B_mag by (simp add: to_polar_def Let_def)
  have h: "\<bar>snd (to_polar (4330127 / 1000000) (5 / 2) True) - 30\<bar> < 1 / 100000"
    using scenario_B_ang by (simp add: to_polar_def Let_def)
  from a b e f g h to_polar_dbl_axis(3,6,7) show ?thesis by (intro conjI)
qed

section \<open>Formatting of the results\<close>

declare str_nat.simps [simp del]

lemma str_nat_digit: "n < 10 \<Longrightarrow> str_nat n = [digit_char n]"
  by (simp add: str_nat.simps)

lemma str_nat_more:
  "10 \<le> n \<Longrightarrow> str_nat n = str_nat (n div 10) @ [digit_char (n mod 10)]"
  by (simp add: str_nat.simps)

lemma replicate_numeral: "replicate (numeral k) c = c # replicate (pred_numeral k) c"
  by (simp add: numeral_eq_Suc)

lemmas format_eval = format_f_def round_half_even_def zfill_def digit_char_def Let_def
  replicate_numeral str_nat_digit str_nat_more

lemma digit_char_is_digit: "d < 10 \<Longrightarrow> digit_char d \<in> set ''0123456789''"
  unfolding digit_char_def by (rule nth_mem) simp

lemma str_nat_digits: "set (str_nat n) \<subseteq> set ''0123456789''"
proof (induction n rule: str_nat.induct)
  case (1 n)
  show ?case
  proof (cases "n < 10")
    case True
    then show ?thesis using digit_char_is_digit [of n] by (simp add: str_nat_digit)
  next
    case False
    then have "set (str_nat (n div 10)) \<subseteq> set ''0123456789''" by (rule "1.IH")
    moreover have "digit_char (n mod 10) \<in> set ''0123456789''"
      by (rule digit_char_is_digit) simp
    ultimately show ?thesis using False by (simp add: str_nat_more)
  qed
qed

lemma format_f_nonneg_chars:
  assumes "0 \<le> v"
  shows "set (format_f v p) \<subseteq> set ''0123456789.''"
proof -
  define D where "D = set ''0123456789.''"
  define n where "n = nat (round_half_even (\<bar>v\<bar> * 10 ^ p))"
  have sub: "set ''0123456789'' \<subseteq> D" and dot: "CHR ''.'' \<in> D" and zero: "CHR ''0'' \<in> D"
    by (simp_all add: D_def)
  have d: "set (str_nat k) \<subseteq> D" for k
    using str_nat_digits [of k] sub by (rule subset_trans)
  have z: "set (zfill p (str_nat k)) \<subseteq> D" for k
    using d [of k] zero by (auto simp: zfill_def)
  from assms have "\<not> v < 0" by simp
  then have eq: "format_f v p = str_nat (n div 10 ^ p)
       @ (if p = 0 then [] else ''.'' @ zfill p (str_nat (n mod 10 ^ p)))"
    by (simp add: format_f_def Let_def n_def)
  have "set (format_f v p) \<subseteq> D"
    unfolding eq using d [of "n div 10 ^ p"] z [of "n mod 10 ^ p"] dot by auto
  then show ?thesis by (simp only: D_def)
qed

lemma format_f_abs_no_minus: "CHR ''-'' \<notin> set (format_f \<bar>v\<bar> p)"
proof -
  have "CHR ''-'' \<notin> set ''0123456789.''" by simp
  moreover have "set (format_f \<bar>v\<bar> p) \<subseteq> set ''0123456789.''"
    by (rule format_f_nonneg_chars) simp
  ultimately show ?thesis by blast
qed

text \<open>
  Reading a printed number back gives the value to within half a unit of the last printed
  place: this is what "rendered at \<open>p\<close> places" means below.
\<close>

lemma digit_of_digit_char: "d < 10 \<Longrightarrow> digit_of (digit_char d) = Some d"
proof -
  assume "d < 10"
  then have "d = 0 \<or> d = 1 \<or> d = 2 \<or> d = 3 \<or> d = 4 \<or> d = 5 \<or> d = 6
      \<or> d = 7 \<or> d = 8 \<or> d = 9"
    by arith
  then show ?thesis
    by (elim disjE) (simp_all add: digit_of_def digit_char_def)
qed

lemma nat_of_digits_append:
  "nat_of_digits (xs @ ys) acc =
     (case nat_of_digits xs acc of None \<Rightarrow> None | Some a \<Rightarrow> nat_of_digits ys a)"
  by (induction xs arbitrary: acc) (simp_all split: option.splits)

lemma nat_of_digits_str_nat:
  "nat_of_digits (str_nat n) acc = Some (acc * 10 ^ length (str_nat n) + n)"
proof (induction n arbitrary: acc rule: str_nat.induct)
  case (1 n)
  show ?case
  proof (cases "n < 10")
    case True
    then show ?thesis by (simp add: str_nat_digit digit_of_digit_char)
  next
    case False
    have d: "digit_of (digit_char (n mod 10)) = Some (n mod 10)"
      by (rule digit_of_digit_char) simp
    from False have s: "str_nat n = str_nat (n div 10) @ [digit_char (n mod 10)]"
      by (simp add: str_nat_more)
    have "nat_of_digits (str_nat (n div 10)) acc
            = Some (acc * 10 ^ length (str_nat (n div 10)) + n div 10)"
      using False by (rule "1.IH")
    then have "nat_of_digits (str_nat n) acc
            = Some (10 * (acc * 10 ^ length (str_nat (n div 10)) + n div 10) + n mod 10)"
      by (simp add: s nat_of_digits_append d)
    moreover have "length (str_nat n) = Suc (length (str_nat (n div 10)))"
      by (simp add: s)
    ultimately show ?thesis by (simp add: algebra_simps)
  qed
qed

lemma nat_of_digits_zeros:
  "nat_of_digits (replicate k (CHR ''0'') @ s) 0 = nat_of_digits s 0"
  by (induction k) (simp_all add: digit_of_def)

lemma length_str_nat:
  "0 < p \<Longrightarrow> n < 10 ^ p \<Longrightarrow> length (str_nat n) \<le> p"
proof (induction n arbitrary: p rule: str_nat.induct)
  case (1 n)
  show ?case
  proof (cases "n < 10")
    case True
    with "1.prems" show ?thesis by (simp add: str_nat_digit)
  next
    case False
    obtain q where q: "p = Suc q" using "1.prems"(1) by (cases p) simp_all
    from False "1.prems"(2) have "q \<noteq> 0" unfolding q by (cases q) simp_all
    moreover from "1.prems"(2) have "n div 10 < 10 ^ q"
      by (simp add: q less_mult_imp_div_less mult.commute)
    ultimately have "length (str_nat (n div 10)) \<le> q"
      using "1.IH" [OF False, of q] by simp
    with False show ?thesis by (simp add: str_nat_more q)
  qed
qed

lemma str_nat_nonempty: "str_nat n \<noteq> []"
  by (cases "n < 10") (simp_all add: str_nat_digit str_nat_more)

lemma str_nat_no_point: "c \<in> set (str_nat n) \<Longrightarrow> c \<noteq> CHR ''.''"
  using str_nat_digits [of n] by auto

lemma str_nat_no_sign: "hd (str_nat n) \<noteq> CHR ''-'' \<and> hd (str_nat n) \<noteq> CHR ''+''"
proof -
  have "hd (str_nat n) \<in> set (str_nat n)" using str_nat_nonempty by (rule hd_in_set)
  then have "hd (str_nat n) \<in> set ''0123456789''" using str_nat_digits [of n] by blast
  then show ?thesis by auto
qed

lemma decimal_unsigned_printed:
  fixes a b p :: nat
  assumes "b < 10 ^ p"
  shows "decimal_unsigned (str_nat a @ (if p = 0 then [] else ''.'' @ zfill p (str_nat b)))
           = Some (real a + real b / 10 ^ p)"
proof -
  let ?P = "\<lambda>c. c \<noteq> CHR ''.''"
  let ?tail = "if p = 0 then [] else ''.'' @ zfill p (str_nat b)"
  have np: "\<And>c. c \<in> set (str_nat a) \<Longrightarrow> ?P c" by (rule str_nat_no_point)
  have tw: "takeWhile ?P (str_nat a @ ?tail) = str_nat a"
    by (simp add: takeWhile_append2 [of "str_nat a" ?P, OF np])
  have dw: "drop 1 (dropWhile ?P (str_nat a @ ?tail)) = (if p = 0 then [] else zfill p (str_nat b))"
    by (simp add: dropWhile_append2 [of "str_nat a" ?P, OF np])
  have ia: "nat_of_digits (str_nat a) 0 = Some a"
    by (simp add: nat_of_digits_str_nat)
  show ?thesis
  proof (cases "p = 0")
    case True
    with assms have "b = 0" by simp
    with True show ?thesis
      unfolding decimal_unsigned_def Let_def tw dw by (simp add: ia str_nat_nonempty)
  next
    case False
    then have "length (str_nat b) \<le> p" using assms by (simp add: length_str_nat)
    then have len: "length (zfill p (str_nat b)) = p" by (simp add: zfill_def)
    have "nat_of_digits (zfill p (str_nat b)) 0 = Some b"
      by (simp add: zfill_def nat_of_digits_zeros nat_of_digits_str_nat)
    with False len show ?thesis
      unfolding decimal_unsigned_def Let_def tw dw by (simp add: ia str_nat_nonempty)
  qed
qed

lemma decimal_no_sign:
  assumes "s \<noteq> []" and "hd s \<noteq> CHR ''-''" and "hd s \<noteq> CHR ''+''"
  shows "decimal s = decimal_unsigned s"
  using assms by (cases s) (simp_all add: decimal_def)

lemma decimal_format_f:
  "decimal (format_f v p)
     = Some ((if v < 0 then - 1 else 1) * (real (nat (round_half_even (\<bar>v\<bar> * 10 ^ p))) / 10 ^ p))"
proof -
  define n where "n = nat (round_half_even (\<bar>v\<bar> * 10 ^ p))"
  define body where
    "body = str_nat (n div 10 ^ p) @ (if p = 0 then [] else ''.'' @ zfill p (str_nat (n mod 10 ^ p)))"
  have f: "format_f v p = (if v < 0 then ''-'' else []) @ body"
    by (simp add: format_f_def Let_def n_def body_def)
  have "real (n div 10 ^ p * 10 ^ p + n mod 10 ^ p) = real n"
    by (simp only: div_mult_mod_eq)
  then have "real (n div 10 ^ p) * 10 ^ p + real (n mod 10 ^ p) = real n"
    by simp
  then have "(real (n div 10 ^ p) * 10 ^ p + real (n mod 10 ^ p)) / 10 ^ p = real n / 10 ^ p"
    by (simp only:)
  then have val: "real (n div 10 ^ p) + real (n mod 10 ^ p) / 10 ^ p = real n / 10 ^ p"
    by (simp add: add_divide_distrib)
  have u: "decimal_unsigned body = Some (real n / 10 ^ p)"
    unfolding body_def using decimal_unsigned_printed [of "n mod 10 ^ p" p "n div 10 ^ p"]
    by (simp add: val)
  have ne: "body \<noteq> []" by (simp add: body_def str_nat_nonempty)
  have "hd body = hd (str_nat (n div 10 ^ p))"
    by (simp add: body_def str_nat_nonempty)
  then have hd: "hd body \<noteq> CHR ''-''" "hd body \<noteq> CHR ''+''"
    using str_nat_no_sign [of "n div 10 ^ p"] by simp_all
  show ?thesis
  proof (cases "v < 0")
    case True
    then have "decimal (format_f v p) = map_option uminus (decimal_unsigned body)"
      by (simp add: f decimal_def)
    with True u show ?thesis by (simp add: n_def)
  next
    case False
    then have "decimal (format_f v p) = decimal_unsigned body"
      using decimal_no_sign [OF ne hd] by (simp add: f)
    with False u show ?thesis by (simp add: n_def)
  qed
qed

lemma format_f_precision:
  "\<exists>r. decimal (format_f v p) = Some r \<and> \<bar>r - v\<bar> \<le> 1 / (2 * 10 ^ p)"
proof -
  define k where "k = round_half_even (\<bar>v\<bar> * 10 ^ p)"
  have pos: "(0::real) < 10 ^ p" by simp
  have "of_int 0 \<le> \<bar>v\<bar> * 10 ^ p" by simp
  then have k0: "0 \<le> k" unfolding k_def by (rule round_half_even_ge)
  then have rn: "real (nat k) = of_int k" by simp
  have "\<bar>of_int k - \<bar>v\<bar> * 10 ^ p\<bar> \<le> 1 / 2"
    unfolding k_def by (rule round_half_even_error)
  then have "\<bar>of_int k - \<bar>v\<bar> * 10 ^ p\<bar> / 10 ^ p \<le> (1 / 2) / 10 ^ p"
    by (rule divide_right_mono) simp
  moreover have "\<bar>of_int k - \<bar>v\<bar> * 10 ^ p\<bar> / 10 ^ p = \<bar>of_int k / 10 ^ p - \<bar>v\<bar>\<bar>"
  proof -
    have "of_int k / 10 ^ p - \<bar>v\<bar> = (of_int k - \<bar>v\<bar> * 10 ^ p) / 10 ^ p"
      by (simp add: field_simps)
    then show ?thesis by (simp add: abs_divide)
  qed
  ultimately have e: "\<bar>of_int k / 10 ^ p - \<bar>v\<bar>\<bar> \<le> 1 / (2 * 10 ^ p)" by simp
  let ?r = "(if v < 0 then - 1 else 1) * (real (nat k) / 10 ^ p)"
  have "decimal (format_f v p) = Some ?r"
    unfolding k_def by (rule decimal_format_f)
  moreover have "\<bar>?r - v\<bar> \<le> 1 / (2 * 10 ^ p)"
  proof (cases "v < 0")
    case True
    then have "?r - v = - (of_int k / 10 ^ p - \<bar>v\<bar>)" by (simp add: rn)
    then have "\<bar>?r - v\<bar> = \<bar>of_int k / 10 ^ p - \<bar>v\<bar>\<bar>" by (simp only: abs_minus_cancel)
    with e show ?thesis by simp
  next
    case False
    then have "?r - v = of_int k / 10 ^ p - \<bar>v\<bar>" by (simp add: rn)
    with e show ?thesis by simp
  qed
  ultimately show ?thesis by blast
qed

text \<open>
  C8. \<open>complex_latex\<close> prints the real part at \<open>p\<close> places (read back, it is
  within half a unit of the last place of the value), then \<open>+\<close> when the
  imaginary part is \<open>\<ge> 0\<close> and \<open>-\<close> otherwise, then \<open>j\<close> and the absolute value of
  the imaginary part at \<open>p\<close> places. The printed absolute value contains no minus sign,
  and the sign character depends on the imaginary part alone: with imaginary part \<open>0\<close>
  it is \<open>+\<close> whatever the real part, and a negative real part leaves it unchanged.
\<close>

theorem complex_latex_sign_convention:
  "complex_latex x y p =
     backslash # ''displaystyle '' @ format_f x p @ backslash # '' ''
     @ (if 0 \<le> y then ''+'' else ''-'') @ backslash # '' j'' @ format_f \<bar>y\<bar> p
   \<and> (\<exists>r. decimal (format_f x p) = Some r \<and> \<bar>r - x\<bar> \<le> 1 / (2 * 10 ^ p))
   \<and> (\<exists>r. decimal (format_f \<bar>y\<bar> p) = Some r \<and> \<bar>r - \<bar>y\<bar>\<bar> \<le> 1 / (2 * 10 ^ p))
   \<and> CHR ''-'' \<notin> set (format_f \<bar>y\<bar> p)
   \<and> complex_latex x 0 p =
       backslash # ''displaystyle '' @ format_f x p @ backslash # '' +''
       @ backslash # '' j'' @ format_f 0 p
   \<and> complex_latex (433 / 100) (- 5 / 2) 3 =
       backslash # ''displaystyle 4.330'' @ backslash # '' -'' @ backslash # '' j2.500''
   \<and> complex_latex (- 433 / 100) (5 / 2) 3 =
       backslash # ''displaystyle -4.330'' @ backslash # '' +'' @ backslash # '' j2.500''"
proof -
  have a: "complex_latex x y p =
     backslash # ''displaystyle '' @ format_f x p @ backslash # '' ''
     @ (if 0 \<le> y then ''+'' else ''-'') @ backslash # '' j'' @ format_f \<bar>y\<bar> p"
    by (simp add: complex_latex_def Let_def)
  have b: "CHR ''-'' \<notin> set (format_f \<bar>y\<bar> p)"
    by (rule format_f_abs_no_minus)
  have c: "complex_latex x 0 p =
       backslash # ''displaystyle '' @ format_f x p @ backslash # '' +''
       @ backslash # '' j'' @ format_f 0 p"
    by (simp add: complex_latex_def Let_def)
  have d: "complex_latex (433 / 100) (- 5 / 2) 3 =
       backslash # ''displaystyle 4.330'' @ backslash # '' -'' @ backslash # '' j2.500''"
    by (simp add: complex_latex_def format_eval)
  have e: "complex_latex (- 433 / 100) (5 / 2) 3 =
       backslash # ''displaystyle -4.330'' @ backslash # '' +'' @ backslash # '' j2.500''"
    by (simp add: complex_latex_def format_eval)
  note r = format_f_precision [of x p] format_f_precision [of "\<bar>y\<bar>" p]
  from a r b c d e show ?thesis by (intro conjI)
qed

text \<open>
  C9. \<open>polar_latex\<close> returns the arrow form and the exponential form. Both hold the
  magnitude and the angle at \<open>p\<close> places; the angle is followed by the degree marker
  exactly when the unit is degrees, and in the exponential form the angle with its
  marker sits inside the braces of the power of \<open>e\<close>. For magnitude \<open>5\<close>, angle
  \<open>30\<close>, three places and degrees, the arrow form holds \<open>5.000\<close> and \<open>30.000\<close> with
  the degree marker.
\<close>

theorem polar_latex_shape:
  "polar_latex m a p True =
     (backslash # ''displaystyle '' @ format_f m p @ backslash # '','' @ backslash # ''angle''
        @ backslash # '','' @ format_f a p @ ''^'' @ backslash # ''circ'',
      backslash # ''displaystyle '' @ format_f m p @ backslash # '',e^{j'' @ backslash # '',''
        @ format_f a p @ ''^'' @ backslash # ''circ'' @ ''}'')
   \<and> polar_latex m a p False =
     (backslash # ''displaystyle '' @ format_f m p @ backslash # '','' @ backslash # ''angle''
        @ backslash # '','' @ format_f a p,
      backslash # ''displaystyle '' @ format_f m p @ backslash # '',e^{j'' @ backslash # '',''
        @ format_f a p @ ''}'')
   \<and> (\<exists>r. decimal (format_f m p) = Some r \<and> \<bar>r - m\<bar> \<le> 1 / (2 * 10 ^ p))
   \<and> (\<exists>r. decimal (format_f a p) = Some r \<and> \<bar>r - a\<bar> \<le> 1 / (2 * 10 ^ p))
   \<and> format_f 5 3 = ''5.000'' \<and> format_f 30 3 = ''30.000''
   \<and> polar_latex 5 30 3 True =
     (backslash # ''displaystyle 5.000'' @ backslash # '','' @ backslash # ''angle''
        @ backslash # '',30.000^'' @ backslash # ''circ'',
      backslash # ''displaystyle 5.000'' @ backslash # '',e^{j'' @ backslash # '',30.000^''
        @ backslash # ''circ}'')"
proof -
  have a: "polar_latex m a p True =
     (backslash # ''displaystyle '' @ format_f m p @ backslash # '','' @ backslash # ''angle''
        @ backslash # '','' @ format_f a p @ ''^'' @ backslash # ''circ'',
      backslash # ''displaystyle '' @ format_f m p @ backslash # '',e^{j'' @ backslash # '',''
        @ format_f a p @ ''^'' @ backslash # ''circ'' @ ''}'')" for m a p
    by (simp add: polar_latex_def Let_def)
  have b: "polar_latex m a p False =
     (backslash # ''displaystyle '' @ format_f m p @ backslash # '','' @ backslash # ''angle''
        @ backslash # '','' @ format_f a p,
      backslash # ''displaystyle '' @ format_f m p @ backslash # '',e^{j'' @ backslash # '',''
        @ format_f a p @ ''}'')"
    by (simp add: polar_latex_def Let_def)
  have c: "format_f 5 3 = ''5.000''" and d: "format_f 30 3 = ''30.000''"
    by (simp_all add: format_eval)
  have e: "polar_latex 5 30 3 True =
     (backslash # ''displaystyle 5.000'' @ backslash # '','' @ backslash # ''angle''
        @ backslash # '',30.000^'' @ backslash # ''circ'',
      backslash # ''displaystyle 5.000'' @ backslash # '',e^{j'' @ backslash # '',30.000^''
        @ backslash # ''circ}'')"
    by (simp add: a c d)
  note r = format_f_precision [of m p] format_f_precision [of a p]
  from a [of m a p] b r c d e show ?thesis by (intro conjI)
qed

section \<open>One run of the script\<close>

lemma script_polar_to_rect:
  fixes pf :: "string \<Rightarrow> pyfloat option" and i :: inputs
  assumes "mode i = PolarToRectangular"
  defines "deg \<equiv> angle_unit i = Degrees"
  defines "m \<equiv> fst (parse_magnitude pf (text1 i))"
  defines "a \<equiv> parse_field pf (text2 i)"
  shows "warned (script pf i) = snd (parse_magnitude pf (text1 i))"
    and "x_val (script pf i) = fst (to_rect m a deg)"
    and "y_val (script pf i) = snd (to_rect m a deg)"
    and "mag_val (script pf i) = m"
    and "ang_val (script pf i) = a"
    and "phasor_arrow (script pf i)
           = fst (polar_latex m (if wrap i then wrap_angle a deg else a) (precision i) deg)"
    and "phasor_expo (script pf i)
           = snd (polar_latex m (if wrap i then wrap_angle a deg else a) (precision i) deg)"
  using assms(1) unfolding deg_def m_def a_def
  by (simp_all add: script_def Let_def case_prod_beta)

lemma script_rect_to_polar:
  fixes pf :: "string \<Rightarrow> pyfloat option" and i :: inputs
  assumes "mode i = RectangularToPolar"
  defines "deg \<equiv> angle_unit i = Degrees"
  defines "u \<equiv> parse_field pf (text1 i)"
  defines "v \<equiv> parse_field pf (text2 i)"
  defines "m \<equiv> fst (to_polar u v deg)"
  defines "a \<equiv> snd (to_polar u v deg)"
  shows "warned (script pf i) = False"
    and "x_val (script pf i) = u"
    and "y_val (script pf i) = v"
    and "mag_val (script pf i) = m"
    and "ang_val (script pf i) = (if wrap i then wrap_angle a deg else a)"
    and "phasor_arrow (script pf i)
           = fst (polar_latex m (if wrap i then wrap_angle a deg else a) (precision i) deg)"
    and "phasor_expo (script pf i)
           = snd (polar_latex m (if wrap i then wrap_angle a deg else a) (precision i) deg)"
  using assms(1) unfolding deg_def m_def a_def u_def v_def
  by (simp_all add: script_def Let_def case_prod_beta)

lemma script_common:
  fixes pf :: "string \<Rightarrow> pyfloat option" and i :: inputs
  shows "rect_tex (script pf i)
           = complex_latex (x_val (script pf i)) (y_val (script pf i)) (precision i)"
    and "num_real (script pf i) = py_round (x_val (script pf i)) (precision i + 2)"
    and "num_imag (script pf i) = py_round (y_val (script pf i)) (precision i + 2)"
    and "num_magnitude (script pf i)
           = py_round (hypot (x_val (script pf i)) (y_val (script pf i))) (precision i + 2)"
    and "num_angle (script pf i)
           = py_round (if angle_unit i = Degrees
                       then degrees (atan2 (y_val (script pf i)) (x_val (script pf i)))
                       else atan2 (y_val (script pf i)) (x_val (script pf i))) (precision i + 2)"
    and "phasor_plot (script pf i)
           = (if show_plot i
              then Some (plot_of (Complex (x_val (script pf i)) (y_val (script pf i)))
                                 (angle_unit i = Degrees) (wrap i) (precision i))
              else None)"
  by (simp_all add: script_def Let_def abs_complex_def np_angle_def case_prod_beta)

lemmas decimal_eval = decimal_def decimal_unsigned_def digit_of_def Let_def

lemma decimal_examples:
  shows "decimal ''abc'' = None" and "decimal ''30.0'' = Some 30" and "decimal ''-1'' = Some (- 1)"
    and "decimal ''0'' = Some 0" and "decimal ''5.0'' = Some 5" and "decimal ''270'' = Some 270"
    and "decimal ''390'' = Some 390" and "decimal ''2.5'' = Some (5 / 2)"
    and "decimal ''-0.000000001'' = Some (- 1 / 1000000000)" and "decimal [] = None"
  by (simp_all add: decimal_eval)

lemma wrap_examples_on_the_page:
  shows "(let r = script decimal (scenario_D\<lparr>text1 := ''5.0'', text2 := ''270''\<rparr>)
    in ang_val r = 270 \<and> (x_val r, y_val r) = to_rect 5 270 True
       \<and> phasor_arrow r = backslash # ''displaystyle 5.000'' @ backslash # '',''
            @ backslash # ''angle'' @ backslash # '',-90.000^'' @ backslash # ''circ'')"
    and "(let r = script decimal
                 (scenario_D\<lparr>mode := RectangularToPolar, text1 := ''-1'', text2 := ''0''\<rparr>)
    in ang_val r = - 180 \<and> (x_val r, y_val r) = (- 1, 0)
       \<and> phasor_arrow r = backslash # ''displaystyle 1.000'' @ backslash # '',''
            @ backslash # ''angle'' @ backslash # '',-180.000^'' @ backslash # ''circ'')"
    and "ang_val (script decimal
                 (scenario_D\<lparr>mode := RectangularToPolar, wrap := False,
                              text1 := ''-1'', text2 := ''0''\<rparr>)) = 180"
proof -
  let ?a = "scenario_D\<lparr>text1 := ''5.0'', text2 := ''270''\<rparr>"
  let ?b = "scenario_D\<lparr>mode := RectangularToPolar, text1 := ''-1'', text2 := ''0''\<rparr>"
  let ?c = "scenario_D\<lparr>mode := RectangularToPolar, wrap := False,
                         text1 := ''-1'', text2 := ''0''\<rparr>"
  have ma: "mode ?a = PolarToRectangular" and mb: "mode ?b = RectangularToPolar"
    and mc: "mode ?c = RectangularToPolar"
    by (simp_all add: scenario_D_def)
  have f: "format_f 5 3 = ''5.000''" "format_f (- 90) 3 = ''-90.000''"
    "format_f 1 3 = ''1.000''" "format_f (- 180) 3 = ''-180.000''"
    by (simp_all add: format_eval)
  have a: "ang_val (script decimal ?a) = 270"
    "(x_val (script decimal ?a), y_val (script decimal ?a)) = to_rect 5 270 True"
    "phasor_arrow (script decimal ?a) = backslash # ''displaystyle 5.000'' @ backslash # '',''
            @ backslash # ''angle'' @ backslash # '',-90.000^'' @ backslash # ''circ''"
    unfolding script_polar_to_rect [OF ma]
    by (simp_all add: scenario_D_def decimal_examples
        parse_magnitude_def parse_field_def wrap_angle_examples polar_latex_def f)
  have b: "ang_val (script decimal ?b) = - 180"
    "(x_val (script decimal ?b), y_val (script decimal ?b)) = (- 1, 0)"
    "phasor_arrow (script decimal ?b) = backslash # ''displaystyle 1.000'' @ backslash # '',''
            @ backslash # ''angle'' @ backslash # '',-180.000^'' @ backslash # ''circ''"
    unfolding script_rect_to_polar [OF mb]
    by (simp_all add: scenario_D_def decimal_examples
        parse_field_def to_polar_negative_real_axis wrap_angle_examples polar_latex_def f)
  have c: "ang_val (script decimal ?c) = 180"
    unfolding script_rect_to_polar [OF mc]
    by (simp add: scenario_D_def decimal_examples
        parse_field_def to_polar_negative_real_axis)
  from a show "let r = script decimal ?a
    in ang_val r = 270 \<and> (x_val r, y_val r) = to_rect 5 270 True
       \<and> phasor_arrow r = backslash # ''displaystyle 5.000'' @ backslash # '',''
            @ backslash # ''angle'' @ backslash # '',-90.000^'' @ backslash # ''circ''"
    unfolding Let_def by (intro conjI)
  from b show "let r = script decimal ?b
    in ang_val r = - 180 \<and> (x_val r, y_val r) = (- 1, 0)
       \<and> phasor_arrow r = backslash # ''displaystyle 1.000'' @ backslash # '',''
            @ backslash # ''angle'' @ backslash # '',-180.000^'' @ backslash # ''circ''"
    unfolding Let_def by (intro conjI)
  from c show "ang_val (script decimal ?c) = 180" .
qed

text \<open>
  C6. In the mode "Polar to Rectangular" the wrap switch changes the angle inside the two
  phasor strings only: with the switch on or off the rectangular result is
  \<open>to_rect\<close> of the magnitude and the angle as typed, and the angle kept is the typed
  one. In the mode "Rectangular to Polar" the switch acts on the angle computed by
  \<open>to_polar\<close>: the wrapped value is the angle of the result and the one formatted.
  On the page: magnitude \<open>5\<close> at \<open>270\<close> degrees keeps the angle \<open>270\<close> and prints
  \<open>-90.000\<close>; the point \<open>(-1, 0)\<close> has the angle \<open>180\<close> with the switch off and
  \<open>-180\<close> with it on.
\<close>

theorem wrap_asymmetry:
  fixes pf :: "string \<Rightarrow> pyfloat option" and i :: inputs
  shows
  "(let deg = (angle_unit i = Degrees); p = precision i;
        m = fst (parse_magnitude pf (text1 i)); a = parse_field pf (text2 i);
        on = script pf (i\<lparr>mode := PolarToRectangular, wrap := True\<rparr>);
        off = script pf (i\<lparr>mode := PolarToRectangular, wrap := False\<rparr>)
    in (x_val on, y_val on) = to_rect m a deg \<and> (x_val off, y_val off) = to_rect m a deg
       \<and> ang_val on = a \<and> ang_val off = a
       \<and> rect_tex on = complex_latex (fst (to_rect m a deg)) (snd (to_rect m a deg)) p
       \<and> rect_tex off = rect_tex on
       \<and> (phasor_arrow on, phasor_expo on) = polar_latex m (wrap_angle a deg) p deg
       \<and> (phasor_arrow off, phasor_expo off) = polar_latex m a p deg)
   \<and> (let deg = (angle_unit i = Degrees); p = precision i;
        u = parse_field pf (text1 i); v = parse_field pf (text2 i);
        m = fst (to_polar u v deg); a = snd (to_polar u v deg);
        on = script pf (i\<lparr>mode := RectangularToPolar, wrap := True\<rparr>);
        off = script pf (i\<lparr>mode := RectangularToPolar, wrap := False\<rparr>)
    in ang_val on = wrap_angle a deg \<and> ang_val off = a
       \<and> mag_val on = m \<and> mag_val off = m
       \<and> (x_val on, y_val on) = (u, v) \<and> (x_val off, y_val off) = (u, v)
       \<and> (phasor_arrow on, phasor_expo on) = polar_latex m (wrap_angle a deg) p deg
       \<and> (phasor_arrow off, phasor_expo off) = polar_latex m a p deg)
   \<and> (let r = script decimal (scenario_D\<lparr>text1 := ''5.0'', text2 := ''270''\<rparr>)
    in ang_val r = 270 \<and> (x_val r, y_val r) = to_rect 5 270 True
       \<and> phasor_arrow r = backslash # ''displaystyle 5.000'' @ backslash # '',''
            @ backslash # ''angle'' @ backslash # '',-90.000^'' @ backslash # ''circ'')
   \<and> (let r = script decimal
                 (scenario_D\<lparr>mode := RectangularToPolar, text1 := ''-1'', text2 := ''0''\<rparr>)
    in ang_val r = - 180 \<and> (x_val r, y_val r) = (- 1, 0)
       \<and> phasor_arrow r = backslash # ''displaystyle 1.000'' @ backslash # '',''
            @ backslash # ''angle'' @ backslash # '',-180.000^'' @ backslash # ''circ'')
   \<and> ang_val (script decimal
                 (scenario_D\<lparr>mode := RectangularToPolar, wrap := False,
                              text1 := ''-1'', text2 := ''0''\<rparr>)) = 180"
proof -
  let ?pon = "i\<lparr>mode := PolarToRectangular, wrap := True\<rparr>"
  let ?poff = "i\<lparr>mode := PolarToRectangular, wrap := False\<rparr>"
  let ?ron = "i\<lparr>mode := RectangularToPolar, wrap := True\<rparr>"
  let ?roff = "i\<lparr>mode := RectangularToPolar, wrap := False\<rparr>"
  have m: "mode ?pon = PolarToRectangular" "mode ?poff = PolarToRectangular"
    "mode ?ron = RectangularToPolar" "mode ?roff = RectangularToPolar"
    by simp_all
  note p_on = script_polar_to_rect [of ?pon pf, OF m(1)]
    and p_off = script_polar_to_rect [of ?poff pf, OF m(2)]
    and r_on = script_rect_to_polar [of ?ron pf, OF m(3)]
    and r_off = script_rect_to_polar [of ?roff pf, OF m(4)]
  have general: "(let deg = (angle_unit i = Degrees); p = precision i;
        m = fst (parse_magnitude pf (text1 i)); a = parse_field pf (text2 i);
        on = script pf (i\<lparr>mode := PolarToRectangular, wrap := True\<rparr>);
        off = script pf (i\<lparr>mode := PolarToRectangular, wrap := False\<rparr>)
    in (x_val on, y_val on) = to_rect m a deg \<and> (x_val off, y_val off) = to_rect m a deg
       \<and> ang_val on = a \<and> ang_val off = a
       \<and> rect_tex on = complex_latex (fst (to_rect m a deg)) (snd (to_rect m a deg)) p
       \<and> rect_tex off = rect_tex on
       \<and> (phasor_arrow on, phasor_expo on) = polar_latex m (wrap_angle a deg) p deg
       \<and> (phasor_arrow off, phasor_expo off) = polar_latex m a p deg)
   \<and> (let deg = (angle_unit i = Degrees); p = precision i;
        u = parse_field pf (text1 i); v = parse_field pf (text2 i);
        m = fst (to_polar u v deg); a = snd (to_polar u v deg);
        on = script pf (i\<lparr>mode := RectangularToPolar, wrap := True\<rparr>);
        off = script pf (i\<lparr>mode := RectangularToPolar, wrap := False\<rparr>)
    in ang_val on = wrap_angle a deg \<and> ang_val off = a
       \<and> mag_val on = m \<and> mag_val off = m
       \<and> (x_val on, y_val on) = (u, v) \<and> (x_val off, y_val off) = (u, v)
       \<and> (phasor_arrow on, phasor_expo on) = polar_latex m (wrap_angle a deg) p deg
       \<and> (phasor_arrow off, phasor_expo off) = polar_latex m a p deg)"
    unfolding Let_def
    by (simp add: p_on p_off r_on r_off script_common)
  from general [THEN conjunct1] general [THEN conjunct2] wrap_examples_on_the_page
  show ?thesis by (intro conjI)
qed

lemma zero_no_overflow: "\<not> dbl_overflows 0"
  by (simp add: dbl_overflows_def)

lemma small_limit_no_overflow:
  assumes "\<bar>v\<bar> \<le> 10 ^ 100"
  shows "\<not> dbl_overflows (1.2 * max 1 \<bar>v\<bar>)"
proof -
  have k: "(12 / 10) * (10::real) ^ 100 < 2 ^ 1024 - 2 ^ 970" by simp
  have "max 1 \<bar>v\<bar> \<le> 10 ^ 100" using assms by simp
  then have "(12 / 10) * max 1 \<bar>v\<bar> \<le> (12 / 10) * 10 ^ 100" by simp
  moreover have "0 \<le> max 1 \<bar>v\<bar>" by simp
  ultimately show ?thesis
    using k by (simp add: dbl_overflows_def abs_mult)
qed

lemma script_x_page:
  assumes "is_finite (field_x pfx (text1 i))" and "is_finite (field_x pfx (text2 i))"
    and "\<not> dbl_overflows (x_val (script (finite_part pfx) i))"
    and "show_plot i \<longrightarrow> \<bar>x_val (script (finite_part pfx) i)\<bar> \<le> 10 ^ 100"
    and "y_val (script (finite_part pfx) i) = 0"
  shows "script_x pfx i = Page (script (finite_part pfx) i)"
proof -
  let ?pg = "script (finite_part pfx) i"
  from assms(2) have b: "field_x pfx (text2 i) \<noteq> Infinite" by auto
  have h: "abs_complex (Complex (x_val ?pg) (y_val ?pg)) = \<bar>x_val ?pg\<bar>"
    by (simp add: abs_complex_def hypot_def assms(5))
  have m: "max \<bar>x_val ?pg\<bar> \<bar>y_val ?pg\<bar> = \<bar>x_val ?pg\<bar>"
    by (simp add: assms(5))
  from assms(4) have l: "show_plot i \<longrightarrow> \<not> dbl_overflows (1.2 * max 1 \<bar>x_val ?pg\<bar>)"
    using small_limit_no_overflow by blast
  from assms(3) have a: "\<not> dbl_overflows \<bar>x_val ?pg\<bar>"
    by (simp add: dbl_overflows_def)
  show ?thesis
    unfolding script_x_def Let_def h complex.sel m using assms(1,2) b l a by simp
qed

lemma script_x_page_imag:
  assumes "is_finite (field_x pfx (text1 i))" and "is_finite (field_x pfx (text2 i))"
    and "\<not> dbl_overflows (y_val (script (finite_part pfx) i))"
    and "show_plot i \<longrightarrow> \<bar>y_val (script (finite_part pfx) i)\<bar> \<le> 10 ^ 100"
    and "x_val (script (finite_part pfx) i) = 0"
  shows "script_x pfx i = Page (script (finite_part pfx) i)"
proof -
  let ?pg = "script (finite_part pfx) i"
  from assms(2) have b: "field_x pfx (text2 i) \<noteq> Infinite" by auto
  have h: "abs_complex (Complex (x_val ?pg) (y_val ?pg)) = \<bar>y_val ?pg\<bar>"
    by (simp add: abs_complex_def hypot_def assms(5))
  have m: "max \<bar>x_val ?pg\<bar> \<bar>y_val ?pg\<bar> = \<bar>y_val ?pg\<bar>"
    by (simp add: assms(5))
  from assms(4) have l: "show_plot i \<longrightarrow> \<not> dbl_overflows (1.2 * max 1 \<bar>y_val ?pg\<bar>)"
    using small_limit_no_overflow by blast
  from assms(3) have a: "\<not> dbl_overflows \<bar>y_val ?pg\<bar>"
    by (simp add: dbl_overflows_def)
  show ?thesis
    unfolding script_x_def Let_def h complex.sel m using assms(1,2) b l a by simp
qed

lemma script_x_page_is:
  assumes "script_x pfx i = Page pg"
  shows "pg = script (finite_part pfx) i"
  using assms by (simp add: script_x_def Let_def split: if_splits)

lemma float_reader_examples:
  shows "float_reader ''abc'' = None" and "float_reader ''inf'' = Some Infinite"
    and "float_reader ''nan'' = Some NaN"
    and "float_reader ''30.0'' = Some (Finite 30)" and "float_reader ''5.0'' = Some (Finite 5)"
    and "float_reader ''2.5'' = Some (Finite (5 / 2))" and "float_reader ''-1'' = Some (Finite (- 1))"
    and "float_reader [] = None"
  by (simp_all add: float_reader_def decimal_examples)

lemma finite_part_float_reader:
  shows "finite_part float_reader ''abc'' = None"
    and "finite_part float_reader ''30.0'' = Some 30"
    and "finite_part float_reader ''5.0'' = Some 5"
    and "finite_part float_reader ''2.5'' = Some (5 / 2)"
    and "finite_part float_reader ''-1'' = Some (- 1)"
    and "finite_part float_reader [] = None"
  by (simp_all add: finite_part_def float_reader_examples)

text \<open>
  C7, as stated, fails: with the magnitude text \<open>abc\<close>, which does not parse, and the
  angle text \<open>inf\<close>, which does, the magnitude becomes \<open>0.0\<close> and then
  \<^verbatim>\<open>math.cos\<close> raises ValueError in \<^verbatim>\<open>to_rect\<close>: the run ends with an exception and
  no result.
\<close>

theorem parse_failure_then_domain_error:
  "mode scenario_D_inf = PolarToRectangular
   \<and> text1 scenario_D_inf = ''abc'' \<and> float_reader (text1 scenario_D_inf) = None
   \<and> text2 scenario_D_inf = ''inf'' \<and> float_reader (text2 scenario_D_inf) = Some Infinite
   \<and> script_x float_reader scenario_D_inf = Raised ValueError"
proof -
  have a: "mode scenario_D_inf = PolarToRectangular" "text1 scenario_D_inf = ''abc''"
    "text2 scenario_D_inf = ''inf''"
    by (simp_all add: scenario_D_inf_def scenario_D_def)
  have b: "float_reader (text1 scenario_D_inf) = None"
    "float_reader (text2 scenario_D_inf) = Some Infinite"
    by (simp_all only: a float_reader_examples)
  have c: "script_x float_reader scenario_D_inf = Raised ValueError"
    by (simp add: script_x_def Let_def a(1) field_x_def b)
  from a b c show ?thesis by (intro conjI)
qed

text \<open>
  C7, amended. When \<^verbatim>\<open>float\<close> fails on a text field and the other field fails too or
  is a finite number, the script goes on with \<open>0\<close> for the failed field and reaches
  its end with no exception. Where the finite number becomes a coordinate of \<open>z\<close> it is
  taken within the doubles and, when the plot is shown, of size at most \<open>10^100\<close>,
  which keeps the limits of the plot far inside the doubles. A failed magnitude gives
  magnitude \<open>0\<close>, no warning and the rectangular result \<open>(0, 0)\<close> as numbers, also
  in the numeric summary; a failed angle gives angle \<open>0\<close>, so the real part is the
  magnitude and the imaginary part is \<open>0\<close>; a failed real or imaginary part gives
  \<open>0\<close> for that part, and the magnitude is the size of the other part. An infinite
  angle in the mode "Polar to Rectangular" ends the run with ValueError, whatever the
  magnitude text; with an angle that is not a number the run goes on, and the rectangular
  result is not a pair of numbers.
\<close>

theorem parse_failure_substitutes_zero:
  fixes pfx :: "string \<Rightarrow> parsed option" and i :: inputs
  shows
  "(mode i = PolarToRectangular \<and> pfx (text1 i) = None
      \<and> (pfx (text2 i) = None \<or> (\<exists>a. pfx (text2 i) = Some (Finite a))) \<longrightarrow>
      (\<exists>pg. script_x pfx i = Page pg \<and> mag_val pg = 0 \<and> \<not> warned pg
         \<and> x_val pg = 0 \<and> y_val pg = 0
         \<and> num_real pg = 0 \<and> num_imag pg = 0 \<and> num_magnitude pg = 0))
   \<and> (mode i = PolarToRectangular \<and> pfx (text2 i) = None
      \<and> (pfx (text1 i) = None
          \<or> (\<exists>m. pfx (text1 i) = Some (Finite m) \<and> \<not> dbl_overflows m
                \<and> (show_plot i \<longrightarrow> \<bar>m\<bar> \<le> 10 ^ 100))) \<longrightarrow>
      (\<exists>pg. script_x pfx i = Page pg \<and> ang_val pg = 0
         \<and> x_val pg = mag_val pg \<and> y_val pg = 0))
   \<and> (mode i = RectangularToPolar \<and> pfx (text1 i) = None
      \<and> (pfx (text2 i) = None
          \<or> (\<exists>v. pfx (text2 i) = Some (Finite v) \<and> \<not> dbl_overflows v
                \<and> (show_plot i \<longrightarrow> \<bar>v\<bar> \<le> 10 ^ 100))) \<longrightarrow>
      (\<exists>pg. script_x pfx i = Page pg \<and> x_val pg = 0 \<and> mag_val pg = \<bar>y_val pg\<bar>))
   \<and> (mode i = RectangularToPolar \<and> pfx (text2 i) = None
      \<and> (pfx (text1 i) = None
          \<or> (\<exists>u. pfx (text1 i) = Some (Finite u) \<and> \<not> dbl_overflows u
                \<and> (show_plot i \<longrightarrow> \<bar>u\<bar> \<le> 10 ^ 100))) \<longrightarrow>
      (\<exists>pg. script_x pfx i = Page pg \<and> y_val pg = 0 \<and> mag_val pg = \<bar>x_val pg\<bar>))
   \<and> (mode i = PolarToRectangular \<and> pfx (text2 i) = Some Infinite \<longrightarrow>
      script_x pfx i = Raised ValueError)
   \<and> (mode i = PolarToRectangular \<and> pfx (text2 i) = Some NaN \<longrightarrow>
      script_x pfx i = NonFinite)"
proof -
  let ?pf = "finite_part pfx"
  let ?pg = "script ?pf i"
  have fin: "is_finite (field_x pfx s)"
    if "pfx s = None \<or> (\<exists>v. pfx s = Some (Finite v) \<and> P v)" for s P
    using that by (auto simp add: field_x_def)
  have fin': "is_finite (field_x pfx s)"
    if "pfx s = None \<or> (\<exists>v. pfx s = Some (Finite v))" for s
    using that by (auto simp add: field_x_def)
  have val: "\<not> dbl_overflows (parse_field ?pf s)
      \<and> (show_plot i \<longrightarrow> \<bar>parse_field ?pf s\<bar> \<le> 10 ^ 100)"
    if "pfx s = None \<or> (\<exists>v. pfx s = Some (Finite v) \<and> \<not> dbl_overflows v
          \<and> (show_plot i \<longrightarrow> \<bar>v\<bar> \<le> 10 ^ 100))" for s
    using that by (auto simp add: parse_field_def finite_part_def zero_no_overflow)
  have valm: "\<not> dbl_overflows (fst (parse_magnitude ?pf s))
      \<and> (show_plot i \<longrightarrow> \<bar>fst (parse_magnitude ?pf s)\<bar> \<le> 10 ^ 100)"
    if "pfx s = None \<or> (\<exists>v. pfx s = Some (Finite v) \<and> \<not> dbl_overflows v
          \<and> (show_plot i \<longrightarrow> \<bar>v\<bar> \<le> 10 ^ 100))" for s
    using that by (auto simp add: parse_magnitude_def finite_part_def zero_no_overflow)
  have a: "\<exists>pg. script_x pfx i = Page pg \<and> mag_val pg = 0 \<and> \<not> warned pg
         \<and> x_val pg = 0 \<and> y_val pg = 0
         \<and> num_real pg = 0 \<and> num_imag pg = 0 \<and> num_magnitude pg = 0"
    if m: "mode i = PolarToRectangular" and f: "pfx (text1 i) = None"
      and g: "pfx (text2 i) = None \<or> (\<exists>a. pfx (text2 i) = Some (Finite a))"
  proof -
    from f have "parse_magnitude ?pf (text1 i) = (0, False)"
      by (simp add: parse_magnitude_def finite_part_def)
    then have v: "mag_val ?pg = 0" "\<not> warned ?pg" "x_val ?pg = 0" "y_val ?pg = 0"
      by (simp_all add: script_polar_to_rect [OF m] to_rect_def Let_def)
    then have n: "num_real ?pg = 0" "num_imag ?pg = 0" "num_magnitude ?pg = 0"
      by (simp_all add: script_common py_round_def hypot_def round_half_even_def)
    from f have "is_finite (field_x pfx (text1 i))" by (simp add: field_x_def)
    moreover from g have "is_finite (field_x pfx (text2 i))" by (rule fin')
    ultimately have "script_x pfx i = Page ?pg"
      by (rule script_x_page) (simp_all add: v zero_no_overflow)
    with v n show ?thesis by blast
  qed
  have b: "\<exists>pg. script_x pfx i = Page pg \<and> ang_val pg = 0
         \<and> x_val pg = mag_val pg \<and> y_val pg = 0"
    if m: "mode i = PolarToRectangular" and f: "pfx (text2 i) = None"
      and g: "pfx (text1 i) = None
          \<or> (\<exists>m. pfx (text1 i) = Some (Finite m) \<and> \<not> dbl_overflows m
                \<and> (show_plot i \<longrightarrow> \<bar>m\<bar> \<le> 10 ^ 100))"
  proof -
    from f have "parse_field ?pf (text2 i) = 0"
      by (simp add: parse_field_def finite_part_def)
    then have v: "ang_val ?pg = 0" "x_val ?pg = mag_val ?pg" "y_val ?pg = 0"
      by (simp_all add: script_polar_to_rect [OF m] to_rect_def radians_def Let_def)
    have s: "\<not> dbl_overflows (x_val ?pg)" "show_plot i \<longrightarrow> \<bar>x_val ?pg\<bar> \<le> 10 ^ 100"
      unfolding v(2) script_polar_to_rect(4) [OF m] using valm [OF g] by simp_all
    from g have "is_finite (field_x pfx (text1 i))" by (rule fin)
    moreover from f have "is_finite (field_x pfx (text2 i))" by (simp add: field_x_def)
    ultimately have "script_x pfx i = Page ?pg"
      using s v(3) by (rule script_x_page)
    with v show ?thesis by blast
  qed
  have c: "\<exists>pg. script_x pfx i = Page pg \<and> x_val pg = 0 \<and> mag_val pg = \<bar>y_val pg\<bar>"
    if m: "mode i = RectangularToPolar" and f: "pfx (text1 i) = None"
      and g: "pfx (text2 i) = None
          \<or> (\<exists>v. pfx (text2 i) = Some (Finite v) \<and> \<not> dbl_overflows v
                \<and> (show_plot i \<longrightarrow> \<bar>v\<bar> \<le> 10 ^ 100))"
  proof -
    from f have "parse_field ?pf (text1 i) = 0"
      by (simp add: parse_field_def finite_part_def)
    then have v: "x_val ?pg = 0" "mag_val ?pg = \<bar>y_val ?pg\<bar>"
      by (simp_all add: script_rect_to_polar [OF m] to_polar_def hypot_def Let_def)
    have s: "\<not> dbl_overflows (y_val ?pg)" "show_plot i \<longrightarrow> \<bar>y_val ?pg\<bar> \<le> 10 ^ 100"
      unfolding script_rect_to_polar(3) [OF m] using val [OF g] by simp_all
    from f have "is_finite (field_x pfx (text1 i))" by (simp add: field_x_def)
    moreover from g have "is_finite (field_x pfx (text2 i))" by (rule fin)
    ultimately have "script_x pfx i = Page ?pg"
      using s v(1) by (rule script_x_page_imag)
    with v show ?thesis by blast
  qed
  have d: "\<exists>pg. script_x pfx i = Page pg \<and> y_val pg = 0 \<and> mag_val pg = \<bar>x_val pg\<bar>"
    if m: "mode i = RectangularToPolar" and f: "pfx (text2 i) = None"
      and g: "pfx (text1 i) = None
          \<or> (\<exists>u. pfx (text1 i) = Some (Finite u) \<and> \<not> dbl_overflows u
                \<and> (show_plot i \<longrightarrow> \<bar>u\<bar> \<le> 10 ^ 100))"
  proof -
    from f have "parse_field ?pf (text2 i) = 0"
      by (simp add: parse_field_def finite_part_def)
    then have v: "y_val ?pg = 0" "mag_val ?pg = \<bar>x_val ?pg\<bar>"
      by (simp_all add: script_rect_to_polar [OF m] to_polar_def hypot_def Let_def)
    have s: "\<not> dbl_overflows (x_val ?pg)" "show_plot i \<longrightarrow> \<bar>x_val ?pg\<bar> \<le> 10 ^ 100"
      unfolding script_rect_to_polar(2) [OF m] using val [OF g] by simp_all
    from g have "is_finite (field_x pfx (text1 i))" by (rule fin)
    moreover from f have "is_finite (field_x pfx (text2 i))" by (simp add: field_x_def)
    ultimately have "script_x pfx i = Page ?pg"
      using s v(1) by (rule script_x_page)
    with v show ?thesis by blast
  qed
  have e: "script_x pfx i = Raised ValueError"
    if "mode i = PolarToRectangular" and "pfx (text2 i) = Some Infinite"
    using that by (simp add: script_x_def Let_def field_x_def)
  have f: "script_x pfx i = NonFinite"
    if "mode i = PolarToRectangular" and "pfx (text2 i) = Some NaN"
    using that by (simp add: script_x_def Let_def field_x_def)
  from a b c d e f show ?thesis by blast
qed

theorem parse_failure_substitutes_zero_witness:
  "(mode scenario_D = PolarToRectangular \<and> text1 scenario_D = ''abc''
      \<and> float_reader (text1 scenario_D) = None
      \<and> float_reader (text2 scenario_D) = Some (Finite 30))
   \<and> (\<exists>pg. script_x float_reader scenario_D = Page pg \<and> \<not> warned pg
         \<and> x_val pg = 0 \<and> y_val pg = 0 \<and> num_real pg = 0 \<and> num_imag pg = 0
         \<and> rect_tex pg
             = backslash # ''displaystyle 0.000'' @ backslash # '' +'' @ backslash # '' j0.000'')
   \<and> (mode (scenario_D\<lparr>text1 := ''5.0'', text2 := ''abc''\<rparr>) = PolarToRectangular
       \<and> float_reader (text2 (scenario_D\<lparr>text1 := ''5.0'', text2 := ''abc''\<rparr>)) = None
       \<and> float_reader (text1 (scenario_D\<lparr>text1 := ''5.0'', text2 := ''abc''\<rparr>)) = Some (Finite 5)
       \<and> \<not> dbl_overflows 5 \<and> \<bar>5 :: real\<bar> \<le> 10 ^ 100)
   \<and> (\<exists>pg. script_x float_reader (scenario_D\<lparr>text1 := ''5.0'', text2 := ''abc''\<rparr>) = Page pg
         \<and> x_val pg = 5 \<and> y_val pg = 0)
   \<and> (mode (scenario_D\<lparr>mode := RectangularToPolar, text2 := ''2.5''\<rparr>) = RectangularToPolar
       \<and> float_reader (text1 (scenario_D\<lparr>mode := RectangularToPolar, text2 := ''2.5''\<rparr>)) = None
       \<and> float_reader (text2 (scenario_D\<lparr>mode := RectangularToPolar, text2 := ''2.5''\<rparr>))
           = Some (Finite (5 / 2))
       \<and> \<not> dbl_overflows (5 / 2) \<and> \<bar>5 / 2 :: real\<bar> \<le> 10 ^ 100)
   \<and> (\<exists>pg. script_x float_reader (scenario_D\<lparr>mode := RectangularToPolar, text2 := ''2.5''\<rparr>)
               = Page pg
         \<and> x_val pg = 0 \<and> mag_val pg = 5 / 2)
   \<and> (mode (scenario_D\<lparr>mode := RectangularToPolar, text1 := ''-1'', text2 := []\<rparr>)
         = RectangularToPolar
       \<and> float_reader (text2 (scenario_D\<lparr>mode := RectangularToPolar, text1 := ''-1'', text2 := []\<rparr>))
           = None
       \<and> float_reader (text1 (scenario_D\<lparr>mode := RectangularToPolar, text1 := ''-1'', text2 := []\<rparr>))
           = Some (Finite (- 1))
       \<and> \<not> dbl_overflows (- 1) \<and> \<bar>- 1 :: real\<bar> \<le> 10 ^ 100)
   \<and> (\<exists>pg. script_x float_reader
                 (scenario_D\<lparr>mode := RectangularToPolar, text1 := ''-1'', text2 := []\<rparr>) = Page pg
         \<and> y_val pg = 0 \<and> mag_val pg = 1)
   \<and> (mode scenario_D_inf = PolarToRectangular
       \<and> float_reader (text2 scenario_D_inf) = Some Infinite)
   \<and> script_x float_reader scenario_D_inf = Raised ValueError
   \<and> (mode (scenario_D\<lparr>text2 := ''nan''\<rparr>) = PolarToRectangular
       \<and> float_reader (text2 (scenario_D\<lparr>text2 := ''nan''\<rparr>)) = Some NaN)
   \<and> script_x float_reader (scenario_D\<lparr>text2 := ''nan''\<rparr>) = NonFinite"
proof -
  let ?a = "scenario_D"
  let ?b = "scenario_D\<lparr>text1 := ''5.0'', text2 := ''abc''\<rparr>"
  let ?c = "scenario_D\<lparr>mode := RectangularToPolar, text2 := ''2.5''\<rparr>"
  let ?d = "scenario_D\<lparr>mode := RectangularToPolar, text1 := ''-1'', text2 := []\<rparr>"
  let ?e = "scenario_D_inf"
  let ?f = "scenario_D\<lparr>text2 := ''nan''\<rparr>"
  let ?pf = "finite_part float_reader"
  have ma: "mode ?a = PolarToRectangular" and mb: "mode ?b = PolarToRectangular"
    and mc: "mode ?c = RectangularToPolar" and md: "mode ?d = RectangularToPolar"
    by (simp_all add: scenario_D_def)
  have pa: "precision ?a = 3"
    by (simp add: scenario_D_def)
  have small: "\<not> dbl_overflows v \<and> \<bar>v\<bar> \<le> 10 ^ 100" if "\<bar>v\<bar> \<le> 5" for v
  proof -
    have "(5::real) < 2 ^ 1024 - 2 ^ 970" and "(5::real) \<le> 10 ^ 100" by simp_all
    with that show ?thesis unfolding dbl_overflows_def by linarith
  qed
  have ha: "mode ?a = PolarToRectangular \<and> text1 ?a = ''abc'' \<and> float_reader (text1 ?a) = None
      \<and> float_reader (text2 ?a) = Some (Finite 30)"
    by (simp add: scenario_D_def float_reader_examples)
  have "\<not> dbl_overflows 5 \<and> \<bar>5 :: real\<bar> \<le> 10 ^ 100" by (rule small) simp
  moreover have "float_reader (text2 ?b) = None" "float_reader (text1 ?b) = Some (Finite 5)"
    by (simp_all add: scenario_D_def float_reader_examples)
  ultimately have hb: "mode ?b = PolarToRectangular \<and> float_reader (text2 ?b) = None
      \<and> float_reader (text1 ?b) = Some (Finite 5)
      \<and> \<not> dbl_overflows 5 \<and> \<bar>5 :: real\<bar> \<le> 10 ^ 100"
    using mb by blast
  have "\<not> dbl_overflows (5 / 2) \<and> \<bar>5 / 2 :: real\<bar> \<le> 10 ^ 100" by (rule small) simp
  moreover have "float_reader (text1 ?c) = None" "float_reader (text2 ?c) = Some (Finite (5 / 2))"
    by (simp_all add: scenario_D_def float_reader_examples)
  ultimately have hc: "mode ?c = RectangularToPolar \<and> float_reader (text1 ?c) = None
      \<and> float_reader (text2 ?c) = Some (Finite (5 / 2))
      \<and> \<not> dbl_overflows (5 / 2) \<and> \<bar>5 / 2 :: real\<bar> \<le> 10 ^ 100"
    using mc by blast
  have "\<not> dbl_overflows (- 1) \<and> \<bar>- 1 :: real\<bar> \<le> 10 ^ 100" by (rule small) simp
  moreover have "float_reader (text2 ?d) = None" "float_reader (text1 ?d) = Some (Finite (- 1))"
    by (simp_all add: scenario_D_def float_reader_examples)
  ultimately have hd: "mode ?d = RectangularToPolar \<and> float_reader (text2 ?d) = None
      \<and> float_reader (text1 ?d) = Some (Finite (- 1))
      \<and> \<not> dbl_overflows (- 1) \<and> \<bar>- 1 :: real\<bar> \<le> 10 ^ 100"
    using md by blast
  have he: "mode ?e = PolarToRectangular \<and> float_reader (text2 ?e) = Some Infinite"
    by (simp add: scenario_D_def scenario_D_inf_def float_reader_examples)
  have hf: "mode ?f = PolarToRectangular \<and> float_reader (text2 ?f) = Some NaN"
    by (simp add: scenario_D_def float_reader_examples)
  have z: "complex_latex 0 0 3
       = backslash # ''displaystyle 0.000'' @ backslash # '' +'' @ backslash # '' j0.000''"
    by (simp add: complex_latex_def format_eval)
  have vb: "mag_val (script ?pf ?b) = 5"
    unfolding script_polar_to_rect [OF mb]
    by (simp add: scenario_D_def parse_magnitude_def finite_part_float_reader)
  have vc: "y_val (script ?pf ?c) = 5 / 2"
    unfolding script_rect_to_polar [OF mc]
    by (simp add: scenario_D_def parse_field_def finite_part_float_reader)
  have vd: "x_val (script ?pf ?d) = - 1"
    unfolding script_rect_to_polar [OF md]
    by (simp add: scenario_D_def parse_field_def finite_part_float_reader)
  note t = parse_failure_substitutes_zero [where pfx = float_reader and i = ?a]
    parse_failure_substitutes_zero [where pfx = float_reader and i = ?b]
    parse_failure_substitutes_zero [where pfx = float_reader and i = ?c]
    parse_failure_substitutes_zero [where pfx = float_reader and i = ?d]
    parse_failure_substitutes_zero [where pfx = float_reader and i = ?e]
    parse_failure_substitutes_zero [where pfx = float_reader and i = ?f]
  from t(1) ha obtain pa where ra: "script_x float_reader ?a = Page pa" "\<not> warned pa"
    "x_val pa = 0" "y_val pa = 0" "num_real pa = 0" "num_imag pa = 0"
    by blast
  from script_x_page_is [OF ra(1)] have "rect_tex pa = complex_latex (x_val pa) (y_val pa) 3"
    by (simp add: script_common(1) pa)
  with ra z have ra': "\<exists>pg. script_x float_reader ?a = Page pg \<and> \<not> warned pg
         \<and> x_val pg = 0 \<and> y_val pg = 0 \<and> num_real pg = 0 \<and> num_imag pg = 0
         \<and> rect_tex pg
             = backslash # ''displaystyle 0.000'' @ backslash # '' +'' @ backslash # '' j0.000''"
    by simp
  from t(2) hb obtain pb where rb: "script_x float_reader ?b = Page pb"
    "x_val pb = mag_val pb" "y_val pb = 0"
    by blast
  from script_x_page_is [OF rb(1)] vb have "mag_val pb = 5" by simp
  with rb have rb': "\<exists>pg. script_x float_reader ?b = Page pg \<and> x_val pg = 5 \<and> y_val pg = 0"
    by simp
  from t(3) hc obtain pc where rc: "script_x float_reader ?c = Page pc"
    "x_val pc = 0" "mag_val pc = \<bar>y_val pc\<bar>"
    by blast
  from script_x_page_is [OF rc(1)] vc have "y_val pc = 5 / 2" by simp
  with rc have rc': "\<exists>pg. script_x float_reader ?c = Page pg \<and> x_val pg = 0 \<and> mag_val pg = 5 / 2"
    by simp
  from t(4) hd obtain pd where rd: "script_x float_reader ?d = Page pd"
    "y_val pd = 0" "mag_val pd = \<bar>x_val pd\<bar>"
    by blast
  from script_x_page_is [OF rd(1)] vd have "x_val pd = - 1" by simp
  with rd have rd': "\<exists>pg. script_x float_reader ?d = Page pg \<and> y_val pg = 0 \<and> mag_val pg = 1"
    by simp
  from t(5) he have re: "script_x float_reader ?e = Raised ValueError" by blast
  from t(6) hf have rf: "script_x float_reader ?f = NonFinite" by blast
  from ha ra' hb rb' hc rc' hd rd' he re hf rf show ?thesis by blast
qed

section \<open>The numeric summary\<close>

lemma decimal_more:
  shows "decimal ''-0.000000001'' = Some (- 1 / 1000000000)"
  by (simp add: decimal_eval)

lemma degrees_near_minus_180:
  shows "- 180 \<le> degrees (atan2 (- 1 / 1000000000) (- 1))"
    and "degrees (atan2 (- 1 / 1000000000) (- 1)) \<le> - 180 + 9 / 100000000"
proof -
  define e where "e = arctan (1 / 1000000000)"
  have a: "atan2 (- 1 / 1000000000) (- 1) = e - pi"
    by (simp add: atan2_def e_def)
  have e0: "0 \<le> e" unfolding e_def using arctan_le_iff [of 0 "1 / 1000000000"] by simp
  have e1: "e \<le> 1 / 1000000000" unfolding e_def by (rule arctan_le_self) simp
  have k: "180 / pi \<le> 90" using pi_ge_two by (simp add: field_simps)
  have k0: "0 \<le> 180 / pi" using pi_gt_zero by simp
  have d: "degrees (e - pi) = e * (180 / pi) - 180"
    using pi_gt_zero by (simp add: degrees_def field_simps)
  have "0 \<le> e * (180 / pi)" using e0 k0 by (rule mult_nonneg_nonneg)
  then show "- 180 \<le> degrees (atan2 (- 1 / 1000000000) (- 1))"
    unfolding a d by linarith
  have "e * (180 / pi) \<le> (1 / 1000000000) * 90"
    using e1 k e0 k0 by (intro mult_mono) simp_all
  then show "degrees (atan2 (- 1 / 1000000000) (- 1)) \<le> - 180 + 9 / 100000000"
    unfolding a d by linarith
qed

text \<open>
  C10, as stated, fails: the angle shown under "Show numeric values" is rounded to
  \<open>precision + 2\<close> places, and an angle of \<open>z\<close> just above \<open>-180\<close> degrees is shown
  as \<open>-180\<close>, which is not in \<open>(-180, 180]\<close>.
\<close>

theorem summary_angle_rounds_to_minus_180:
  "num_angle (script decimal summary_boundary) = - 180
   \<and> \<not> (- 180 < num_angle (script decimal summary_boundary))"
proof -
  define v where "v = degrees (atan2 (- 1 / 1000000000) (- 1))"
  have m: "mode summary_boundary = RectangularToPolar" by (simp add: summary_boundary_def)
  have "x_val (script decimal summary_boundary) = - 1"
    and "y_val (script decimal summary_boundary) = - 1 / 1000000000"
    by (simp_all add: script_rect_to_polar [OF m] parse_field_def)
       (simp_all add: summary_boundary_def decimal_examples decimal_more)
  then have n: "num_angle (script decimal summary_boundary) = py_round v 5"
    by (simp add: script_common v_def) (simp add: summary_boundary_def)
  have lo: "- 180 \<le> v" and hi: "v \<le> - 180 + 9 / 100000000"
    unfolding v_def by (rule degrees_near_minus_180)+
  have "round_half_even (v * 10 ^ 5) = - 18000000"
  proof (rule round_half_even_near)
    from lo show "of_int (- 18000000) \<le> v * 10 ^ 5" by simp
    from hi show "v * 10 ^ 5 < of_int (- 18000000) + 1 / 2" by simp
  qed
  then have "py_round v 5 = - 180" by (simp add: py_round_def)
  with n show ?thesis by simp
qed

lemma atan2_at_390_degrees:
  assumes "0 < m"
  shows "degrees (atan2 (m * sin (radians 390)) (m * cos (radians 390))) = 30"
proof -
  have r: "radians 390 = pi / 6 + 2 * pi" by (simp add: radians_def)
  have c: "cos (radians 390) = sqrt 3 / 2" and s: "sin (radians 390) = 1 / 2"
    unfolding r by (simp_all only: cos_periodic sin_periodic cos_30 sin_30)
  have x: "0 < m * (sqrt 3 / 2)" using assms by simp
  have q: "m * (1 / 2) / (m * (sqrt 3 / 2)) = 1 / sqrt 3" using assms by simp
  have "atan2 (m * (1 / 2)) (m * (sqrt 3 / 2)) = arctan (m * (1 / 2) / (m * (sqrt 3 / 2)))"
    using x by (simp only: atan2_def if_True)
  then have key: "atan2 (m * (1 / 2)) (m * (sqrt 3 / 2)) = pi / 6"
    by (simp only: q arctan_inv_sqrt3)
  show ?thesis unfolding c s key by (simp add: degrees_def)
qed

lemma xy_independent_of_wrap:
  fixes pf :: "string \<Rightarrow> pyfloat option" and i :: inputs
  shows "x_val (script pf (i\<lparr>wrap := w\<rparr>)) = x_val (script pf i)"
    and "y_val (script pf (i\<lparr>wrap := w\<rparr>)) = y_val (script pf i)"
proof -
  have "x_val (script pf (i\<lparr>wrap := w\<rparr>)) = x_val (script pf i)
        \<and> y_val (script pf (i\<lparr>wrap := w\<rparr>)) = y_val (script pf i)"
  proof (cases "mode i")
    case PolarToRectangular
    then have "mode (i\<lparr>wrap := w\<rparr>) = PolarToRectangular" by simp
    from script_polar_to_rect(2,3) [OF this] script_polar_to_rect(2,3) [OF PolarToRectangular]
    show ?thesis by simp
  next
    case RectangularToPolar
    then have "mode (i\<lparr>wrap := w\<rparr>) = RectangularToPolar" by simp
    from script_rect_to_polar(2,3) [OF this] script_rect_to_polar(2,3) [OF RectangularToPolar]
    show ?thesis by simp
  qed
  then show "x_val (script pf (i\<lparr>wrap := w\<rparr>)) = x_val (script pf i)"
    and "y_val (script pf (i\<lparr>wrap := w\<rparr>)) = y_val (script pf i)"
    by simp_all
qed

text \<open>
  C10, amended. The angle of the numeric summary is the angle of \<open>z\<close>, in the chosen
  unit, rounded to \<open>precision + 2\<close> places; the plot label, before its own wrapping,
  prints the same angle of \<open>z\<close>. For finite \<open>z\<close> the angle lies in the closed range
  from \<open>-pi\<close> to \<open>pi\<close>, in degrees from \<open>-180\<close> to \<open>180\<close>, and so does the
  rounded value in degrees, which is within one unit of the last place of the angle. The
  lower end is reached before any rounding: on doubles the angle of \<open>-1 - 0.0j\<close> is
  \<open>-180.0\<close> degrees. The angle shown does not depend on the wrap switch, nor on the
  typed angle beyond \<open>z\<close>: magnitude \<open>5\<close> at a typed \<open>390\<close> degrees is shown as
  \<open>30\<close>, at each precision of the slider.
\<close>

theorem summary_angle_closed_range:
  fixes pf :: "string \<Rightarrow> pyfloat option" and i :: inputs
  shows
  "(let r = script pf i; t = atan2 (y_val r) (x_val r);
        a = (if angle_unit i = Degrees then degrees t else t);
        n = precision i + 2
    in - pi \<le> t \<and> t \<le> pi \<and> - 180 \<le> degrees t \<and> degrees t \<le> 180
       \<and> num_angle r = py_round a n
       \<and> \<bar>num_angle r - a\<bar> \<le> 1 / 10 ^ n
       \<and> (angle_unit i = Degrees \<longrightarrow> - 180 \<le> num_angle r \<and> num_angle r \<le> 180)
       \<and> phasor_plot r =
           (if show_plot i
            then Some (plot_of (Complex (x_val r) (y_val r)) (angle_unit i = Degrees)
                         (wrap i) (precision i))
            else None)
       \<and> label_tex (plot_of (Complex (x_val r) (y_val r)) (angle_unit i = Degrees)
                      False (precision i))
           = ''$|z|='' @ format_f (hypot (x_val r) (y_val r)) (precision i) @ '',''
             @ backslash # '' '' @ backslash # ''theta='' @ format_f a (precision i)
             @ (if angle_unit i = Degrees then ''^'' @ backslash # ''circ'' else []) @ ''$'')
   \<and> num_angle (script pf (i\<lparr>wrap := True\<rparr>)) = num_angle (script pf (i\<lparr>wrap := False\<rparr>))
   \<and> (mode i = PolarToRectangular \<and> angle_unit i = Degrees \<and> pf (text1 i) = Some 5
        \<and> pf (text2 i) = Some 390 \<and> precision i \<le> 6 \<longrightarrow> num_angle (script pf i) = 30)
   \<and> degrees_dbl (atan2_dbl NegZero (Val (- 1))) = Val (- 180)"
proof -
  define r where "r = script pf i"
  define t where "t = atan2 (y_val r) (x_val r)"
  define a where "a = (if angle_unit i = Degrees then degrees t else t)"
  define n where "n = precision i + 2"
  have b: "- pi \<le> t" "t \<le> pi"
    using atan2_range [of "y_val r" "x_val r"] by (simp_all add: t_def)
  note d = degrees_range [OF b]
  have na: "num_angle r = py_round a n"
    unfolding r_def a_def t_def n_def by (simp add: script_common(5))
  have "(1::real) / (2 * 10 ^ n) \<le> 1 / 10 ^ n" by (simp add: field_simps)
  with py_round_error [of a n] have err: "\<bar>num_angle r - a\<bar> \<le> 1 / 10 ^ n"
    unfolding na by linarith
  have deg: "- 180 \<le> num_angle r \<and> num_angle r \<le> 180" if "angle_unit i = Degrees"
  proof -
    from that have "a = degrees t" by (simp add: a_def)
    with d have "of_int (- 180) \<le> a" and "a \<le> of_int 180" by simp_all
    from py_round_between [OF this, of n] show ?thesis by (simp add: na)
  qed
  have pl: "phasor_plot r =
           (if show_plot i
            then Some (plot_of (Complex (x_val r) (y_val r)) (angle_unit i = Degrees)
                         (wrap i) (precision i))
            else None)"
    unfolding r_def by (rule script_common(6))
  have lb: "label_tex (plot_of (Complex (x_val r) (y_val r)) (angle_unit i = Degrees)
                      False (precision i))
           = ''$|z|='' @ format_f (hypot (x_val r) (y_val r)) (precision i) @ '',''
             @ backslash # '' '' @ backslash # ''theta='' @ format_f a (precision i)
             @ (if angle_unit i = Degrees then ''^'' @ backslash # ''circ'' else []) @ ''$''"
    by (simp add: plot_of_def Let_def abs_complex_def np_angle_def a_def t_def)
  have first: "let r = script pf i; t = atan2 (y_val r) (x_val r);
        a = (if angle_unit i = Degrees then degrees t else t);
        n = precision i + 2
    in - pi \<le> t \<and> t \<le> pi \<and> - 180 \<le> degrees t \<and> degrees t \<le> 180
       \<and> num_angle r = py_round a n
       \<and> \<bar>num_angle r - a\<bar> \<le> 1 / 10 ^ n
       \<and> (angle_unit i = Degrees \<longrightarrow> - 180 \<le> num_angle r \<and> num_angle r \<le> 180)
       \<and> phasor_plot r =
           (if show_plot i
            then Some (plot_of (Complex (x_val r) (y_val r)) (angle_unit i = Degrees)
                         (wrap i) (precision i))
            else None)
       \<and> label_tex (plot_of (Complex (x_val r) (y_val r)) (angle_unit i = Degrees)
                      False (precision i))
           = ''$|z|='' @ format_f (hypot (x_val r) (y_val r)) (precision i) @ '',''
             @ backslash # '' '' @ backslash # ''theta='' @ format_f a (precision i)
             @ (if angle_unit i = Degrees then ''^'' @ backslash # ''circ'' else []) @ ''$''"
    unfolding Let_def r_def [symmetric] t_def [symmetric] a_def [symmetric] n_def [symmetric]
    using b d na err deg pl lb by blast
  have second: "num_angle (script pf (i\<lparr>wrap := True\<rparr>))
                 = num_angle (script pf (i\<lparr>wrap := False\<rparr>))"
    by (simp add: script_common(5) xy_independent_of_wrap)
  have third: "num_angle (script pf i) = 30"
    if h: "mode i = PolarToRectangular" "angle_unit i = Degrees" "pf (text1 i) = Some 5"
      "pf (text2 i) = Some 390"
  proof -
    have x: "x_val (script pf i) = 5 * cos (radians 390)"
      and y: "y_val (script pf i) = 5 * sin (radians 390)"
      using h by (simp_all add: script_polar_to_rect [OF h(1)] parse_magnitude_def
          parse_field_def to_rect_def Let_def)
    have "num_angle (script pf i) = py_round (of_int 30) (precision i + 2)"
      using h(2) atan2_at_390_degrees [of 5] by (simp add: script_common(5) x y)
    then show ?thesis unfolding py_round_int by simp
  qed
  have fourth: "degrees_dbl (atan2_dbl NegZero (Val (- 1))) = Val (- 180)"
    by (simp only: atan2_dbl_axis degrees_dbl_minus_pi)
  from first second third fourth show ?thesis by blast
qed

theorem summary_angle_closed_range_witness:
  "(mode scenario_390 = PolarToRectangular \<and> angle_unit scenario_390 = Degrees
    \<and> decimal (text1 scenario_390) = Some 5 \<and> decimal (text2 scenario_390) = Some 390
    \<and> precision scenario_390 \<le> 6)
   \<and> \<not> wrap scenario_390
   \<and> num_angle (script decimal scenario_390) = 30
   \<and> - 180 \<le> num_angle (script decimal scenario_390)
   \<and> num_angle (script decimal scenario_390) \<le> 180"
proof -
  have h: "mode scenario_390 = PolarToRectangular \<and> angle_unit scenario_390 = Degrees
    \<and> decimal (text1 scenario_390) = Some 5 \<and> decimal (text2 scenario_390) = Some 390
    \<and> precision scenario_390 \<le> 6"
    and w: "\<not> wrap scenario_390"
    by (simp_all add: scenario_390_def decimal_examples)
  from summary_angle_closed_range [where pf = decimal and i = scenario_390] h
  have "num_angle (script decimal scenario_390) = 30" by blast
  with h w show ?thesis by simp
qed

end
